theory Spec2Isabelle
  imports Main
begin

section \<open>JavaScript built-ins used by the coordinator\<close>

text \<open>
  Strings are lists of 8-bit characters; \<open>length\<close> is the number of code units.
  A \<open>bigint\<close> is an \<open>int\<close>.  The built-ins below are the ones the modelled functions
  call: \<open>String.prototype.slice\<close> with non-negative indices, \<open>padStart\<close>,
  \<open>toLowerCase\<close>, \<open>parseInt(_, 16)\<close>, \<open>Number.prototype.toString(16)\<close>,
  \<open>BigInt.prototype.toString()\<close> and the \<open>BigInt(string)\<close> conversion.
\<close>

datatype error =
    ValidationError string
  | ChannelError string
  | Error string
  | SyntaxError string

fun message :: "error \<Rightarrow> string" where
  "message (ValidationError msg) = msg"
| "message (ChannelError msg) = msg"
| "message (Error msg) = msg"
| "message (SyntaxError msg) = msg"

text \<open>A JavaScript \<open>number\<close> as produced by \<open>parseInt\<close>: an integer or \<open>NaN\<close>.\<close>

datatype number = Finite int | NaN

definition slice :: "string \<Rightarrow> nat \<Rightarrow> nat \<Rightarrow> string" where
  "slice str start end = take (end - start) (drop start str)"

definition sliceFrom :: "string \<Rightarrow> nat \<Rightarrow> string" where
  "sliceFrom str start = drop start str"

definition padStart :: "string \<Rightarrow> nat \<Rightarrow> char \<Rightarrow> string" where
  "padStart str targetLength c = replicate (targetLength - length str) c @ str"

text \<open>The white space characters among the 8-bit characters: tab, line feed, vertical
  tab, form feed, carriage return, space and no-break space.\<close>

definition isWhiteSpace :: "char \<Rightarrow> bool" where
  "isWhiteSpace c = (c \<in> set [CHR 0x09, CHR 0x0A, CHR 0x0B, CHR 0x0C, CHR 0x0D, CHR 0x20, CHR 0xA0])"

definition trimString :: "string \<Rightarrow> string" where
  "trimString str = rev (dropWhile isWhiteSpace (rev (dropWhile isWhiteSpace str)))"

text \<open>
  \<open>toLowerCase\<close> is only applied to strings that passed the address test, which are
  ASCII; the model maps the ASCII capitals and leaves every other character.
\<close>

definition toLowerCaseChar :: "char \<Rightarrow> char" where
  "toLowerCaseChar c =
     (case map_of (zip ''ABCDEFGHIJKLMNOPQRSTUVWXYZ'' ''abcdefghijklmnopqrstuvwxyz'') c of
        None \<Rightarrow> c
      | Some l \<Rightarrow> l)"

definition toLowerCase :: "string \<Rightarrow> string" where
  "toLowerCase str = map toLowerCaseChar str"

text \<open>The value of a digit in radix up to 16 (\<open>0-9\<close>, \<open>a-f\<close>, \<open>A-F\<close>).\<close>

definition digitTable :: "(char \<times> nat) list" where
  "digitTable =
     [(CHR ''0'', 0), (CHR ''1'', 1), (CHR ''2'', 2), (CHR ''3'', 3), (CHR ''4'', 4),
      (CHR ''5'', 5), (CHR ''6'', 6), (CHR ''7'', 7), (CHR ''8'', 8), (CHR ''9'', 9),
      (CHR ''a'', 10), (CHR ''b'', 11), (CHR ''c'', 12), (CHR ''d'', 13), (CHR ''e'', 14),
      (CHR ''f'', 15), (CHR ''A'', 10), (CHR ''B'', 11), (CHR ''C'', 12), (CHR ''D'', 13),
      (CHR ''E'', 14), (CHR ''F'', 15)]"

definition digitValue :: "char \<Rightarrow> nat option" where
  "digitValue c = map_of digitTable c"

definition isDigitIn :: "nat \<Rightarrow> char \<Rightarrow> bool" where
  "isDigitIn radix c = (case digitValue c of None \<Rightarrow> False | Some d \<Rightarrow> d < radix)"

definition valueIn :: "nat \<Rightarrow> string \<Rightarrow> nat" where
  "valueIn radix ds = foldl (\<lambda>acc c. radix * acc + (case digitValue c of None \<Rightarrow> 0 | Some d \<Rightarrow> d)) 0 ds"

definition digitChar :: "nat \<Rightarrow> char" where
  "digitChar d = (if d < 16 then ''0123456789abcdef'' ! d else CHR ''?'')"

text \<open>The digits of a natural number in a radix from 2 to 16, most significant first.\<close>

fun digitsIn :: "nat \<Rightarrow> nat \<Rightarrow> string" where
  "digitsIn radix n =
     (if radix < 2 \<or> n < radix then [digitChar n]
      else digitsIn radix (n div radix) @ [digitChar (n mod radix)])"

declare digitsIn.simps [simp del]

text \<open>
  \<open>parseInt(str, 16)\<close>: leading white space, an optional sign, an optional \<open>0x\<close>
  prefix, then the longest run of hexadecimal digits; \<open>NaN\<close> when that run is empty.
\<close>

definition parseInt16 :: "string \<Rightarrow> number" where
  "parseInt16 str =
     (let t = dropWhile isWhiteSpace str;
          neg = (case t of [] \<Rightarrow> False | c # _ \<Rightarrow> c = CHR ''-'');
          u = (case t of [] \<Rightarrow> [] | c # cs \<Rightarrow> if c = CHR ''-'' \<or> c = CHR ''+'' then cs else t);
          w = (case u of
                 a # b # cs \<Rightarrow> if a = CHR ''0'' \<and> (b = CHR ''x'' \<or> b = CHR ''X'') then cs else u
               | _ \<Rightarrow> u);
          ds = takeWhile (isDigitIn 16) w
      in if ds = [] then NaN
         else Finite (if neg then - int (valueIn 16 ds) else int (valueIn 16 ds)))"

definition numberToString16 :: "number \<Rightarrow> string" where
  "numberToString16 x =
     (case x of
        NaN \<Rightarrow> ''NaN''
      | Finite i \<Rightarrow> if i < 0 then CHR ''-'' # digitsIn 16 (nat (- i)) else digitsIn 16 (nat i))"

definition bigintToString :: "int \<Rightarrow> string" where
  "bigintToString i =
     (if i < 0 then CHR ''-'' # digitsIn 10 (nat (- i)) else digitsIn 10 (nat i))"

text \<open>
  \<open>BigInt(str)\<close>: the string is trimmed; the empty string is \<open>0n\<close>; a \<open>0x\<close>, \<open>0o\<close>
  or \<open>0b\<close> prefix selects the radix; otherwise an optional sign and decimal digits.
  Anything else throws a \<open>SyntaxError\<close>.
\<close>

definition isNumeral :: "nat \<Rightarrow> string \<Rightarrow> bool" where
  "isNumeral radix ds = (ds \<noteq> [] \<and> list_all (isDigitIn radix) ds)"

definition radixOfPrefix :: "char \<Rightarrow> nat option" where
  "radixOfPrefix c =
     (if c = CHR ''x'' \<or> c = CHR ''X'' then Some 16
      else if c = CHR ''o'' \<or> c = CHR ''O'' then Some 8
      else if c = CHR ''b'' \<or> c = CHR ''B'' then Some 2
      else None)"

definition cannotConvert :: "string \<Rightarrow> error" where
  "cannotConvert str = SyntaxError (''Cannot convert '' @ str @ '' to a BigInt'')"

definition signedDecimal :: "string \<Rightarrow> string \<Rightarrow> error + int" where
  "signedDecimal str t =
     (case t of
        [] \<Rightarrow> Inr 0
      | c # cs \<Rightarrow>
          if c = CHR ''-'' then
            (if isNumeral 10 cs then Inr (- int (valueIn 10 cs)) else Inl (cannotConvert str))
          else if c = CHR ''+'' then
            (if isNumeral 10 cs then Inr (int (valueIn 10 cs)) else Inl (cannotConvert str))
          else if isNumeral 10 t then Inr (int (valueIn 10 t))
          else Inl (cannotConvert str))"

definition BigInt :: "string \<Rightarrow> error + int" where
  "BigInt str =
     (let t = trimString str in
      case t of
        a # b # cs \<Rightarrow>
          (case (if a = CHR ''0'' then radixOfPrefix b else None) of
             Some radix \<Rightarrow>
               if isNumeral radix cs then Inr (int (valueIn radix cs))
               else Inl (cannotConvert str)
           | None \<Rightarrow> signedDecimal str t)
      | _ \<Rightarrow> signedDecimal str t)"

section \<open>Signature helpers of \<open>packages/proto/src/eip712.ts\<close>\<close>

text \<open>
  \<open>SignatureComponents\<close> has the fields \<open>v\<close>, \<open>r\<close> and \<open>s\<close>; they carry the prefix
  \<open>sig_\<close> here.
\<close>

record SignatureComponents =
  sig_v :: number
  sig_r :: string
  sig_s :: string

definition splitSignature :: "string \<Rightarrow> SignatureComponents" where
  "splitSignature signature =
     (let sig = sliceFrom signature 2 in
      \<lparr> sig_v = parseInt16 (slice sig 128 130),
        sig_r = ''0x'' @ slice sig 0 64,
        sig_s = ''0x'' @ slice sig 64 128 \<rparr>)"

definition joinSignature :: "SignatureComponents \<Rightarrow> string" where
  "joinSignature components =
     (let r = sliceFrom (sig_r components) 2;
          s = sliceFrom (sig_s components) 2;
          v = padStart (numberToString16 (sig_v components)) 2 (CHR ''0'')
      in ''0x'' @ r @ s @ v)"

definition validateSignature :: "string \<Rightarrow> string \<Rightarrow> string \<Rightarrow> bool" where
  "validateSignature signature expectedSigner messageHash =
     (length signature = 132 \<and> length expectedSigner = 42)"

definition validateNonceSequence :: "int \<Rightarrow> int \<Rightarrow> bool" where
  "validateNonceSequence currentNonce newNonce = (newNonce = currentNonce + 1)"

text \<open>The lower-case hexadecimal digits.\<close>

definition lowerHex :: "char \<Rightarrow> bool" where
  "lowerHex c = (c \<in> set ''0123456789abcdef'')"

section \<open>Protocol types of \<open>packages/proto/src/types.ts\<close>\<close>

text \<open>
  \<open>Address\<close> and \<open>ChannelId\<close> are objects with the single field \<open>value: string\<close>, and
  \<open>ChainId\<close> one with \<open>value: number\<close>; each is modelled by its \<open>value\<close>.  The chain id
  is only ever copied, so an \<open>int\<close> stands for it.  The fields of the message records
  carry a prefix, since several interfaces share field names.
\<close>

type_synonym Address = string
type_synonym ChannelId = string
type_synonym ChainId = int

record TokenAmount =
  token :: Address
  amount :: int

record ChannelState =
  channelId :: ChannelId
  nonce :: int
  trader :: Address
  lp :: Address
  traderBalances :: "TokenAmount list"
  lpBalances :: "TokenAmount list"
  timestamp :: int
  chainId :: ChainId

record ChannelParams =
  p_trader :: Address
  p_lp :: Address
  p_tokenIn :: Address
  p_tokenOut :: Address
  p_traderDeposit :: int
  p_lpDeposit :: int
  p_chainId :: ChainId
  p_timeout :: int

datatype OrderSide = BUY | SELL

record QuoteRequest =
  qr_channelId :: ChannelId
  qr_nonce :: int
  qr_side :: OrderSide
  qr_baseToken :: Address
  qr_quoteToken :: Address
  qr_quantity :: int
  qr_maxSlippageBps :: int
  qr_timestamp :: int
  qr_trader :: Address

record Fill =
  fill_channelId :: ChannelId
  fill_quoteId :: string
  fill_fillId :: string
  fill_nonce :: int
  fill_quantity :: int
  fill_price :: int
  fill_timestamp :: int
  fill_trader :: Address
  fill_lp :: Address

record Cancel =
  cancel_channelId :: ChannelId
  cancel_quoteId :: string
  cancel_nonce :: int
  cancel_timestamp :: int
  cancel_trader :: Address

record Heartbeat =
  hb_channelId :: ChannelId
  hb_nonce :: int
  hb_timestamp :: int
  hb_sender :: Address

record CheckpointRequest =
  cp_channelId :: ChannelId
  cp_state :: ChannelState
  cp_traderSignature :: string
  cp_lpSignature :: string

text \<open>
  The type \<open>ChannelStatus\<close> lists the first six values; the channel manager also
  writes \<open>'TIMEOUT'\<close> and \<open>'EXPIRED'\<close> to the stored status.
\<close>

datatype ChannelStatus =
  OPENING | ACTIVE | CHECKPOINTING | SETTLING | CLOSED | DISPUTED | TIMEOUT | EXPIRED

definition CHANNEL_TIMEOUT_MS :: int where
  "CHANNEL_TIMEOUT_MS = 3600000"

definition MAX_SLIPPAGE_BPS :: int where
  "MAX_SLIPPAGE_BPS = 1000"

definition PRICE_PRECISION :: int where
  "PRICE_PRECISION = 10 ^ 18"

text \<open>\<open>createAddress\<close> tests the value against \<open>/^0x[a-fA-F0-9]{40}$/\<close>.\<close>

definition isAddressFormat :: "string \<Rightarrow> bool" where
  "isAddressFormat v =
     (case v of
        a # b # digits \<Rightarrow>
          a = CHR ''0'' \<and> b = CHR ''x'' \<and> length digits = 40 \<and> list_all (isDigitIn 16) digits
      | _ \<Rightarrow> False)"

definition createAddress :: "string \<Rightarrow> error + Address" where
  "createAddress v =
     (if \<not> isAddressFormat v then Inl (Error (''Invalid address format: '' @ v))
      else Inr (toLowerCase v))"

definition createTokenAmount :: "string \<Rightarrow> int \<Rightarrow> error + TokenAmount" where
  "createTokenAmount tok amt =
     (case createAddress tok of
        Inl e \<Rightarrow> Inl e
      | Inr a \<Rightarrow> Inr \<lparr> token = a, amount = amt \<rparr>)"

section \<open>Stored representation of a channel state\<close>

text \<open>
  The object built by \<open>serializeChannelState\<close>: every \<open>bigint\<close> as its decimal string,
  the chain id as it is.  The fields carry the prefix \<open>s_\<close>.
\<close>

record SerializedAmount =
  s_token :: string
  s_amount :: string

record SerializedState =
  s_channelId :: string
  s_nonce :: string
  s_trader :: string
  s_lp :: string
  s_traderBalances :: "SerializedAmount list"
  s_lpBalances :: "SerializedAmount list"
  s_timestamp :: string
  s_chainId :: ChainId

definition serializeAmount :: "TokenAmount \<Rightarrow> SerializedAmount" where
  "serializeAmount b = \<lparr> s_token = token b, s_amount = bigintToString (amount b) \<rparr>"

definition serializeChannelState :: "ChannelState \<Rightarrow> SerializedState" where
  "serializeChannelState state =
     \<lparr> s_channelId = channelId state,
       s_nonce = bigintToString (nonce state),
       s_trader = trader state,
       s_lp = lp state,
       s_traderBalances = map serializeAmount (traderBalances state),
       s_lpBalances = map serializeAmount (lpBalances state),
       s_timestamp = bigintToString (timestamp state),
       s_chainId = chainId state \<rparr>"

text \<open>
  \<open>createTokenAmount(b.token, BigInt(b.amount))\<close>: the argument \<open>BigInt(b.amount)\<close> is
  evaluated before the call.
\<close>

definition deserializeAmount :: "SerializedAmount \<Rightarrow> error + TokenAmount" where
  "deserializeAmount b =
     (case BigInt (s_amount b) of
        Inl e \<Rightarrow> Inl e
      | Inr amt \<Rightarrow> createTokenAmount (s_token b) amt)"

text \<open>\<open>Array.prototype.map\<close> with a callback that may throw: the first throw ends it.\<close>

fun mapThrowing :: "('a \<Rightarrow> error + 'b) \<Rightarrow> 'a list \<Rightarrow> error + 'b list" where
  "mapThrowing f [] = Inr []"
| "mapThrowing f (x # xs) =
     (case f x of
        Inl e \<Rightarrow> Inl e
      | Inr y \<Rightarrow> (case mapThrowing f xs of Inl e \<Rightarrow> Inl e | Inr ys \<Rightarrow> Inr (y # ys)))"

text \<open>
  The fields of the object literal are evaluated in the order they are written:
  \<open>nonce\<close>, \<open>trader\<close>, \<open>lp\<close>, \<open>traderBalances\<close>, \<open>lpBalances\<close>, \<open>timestamp\<close>.
\<close>

definition deserializeChannelState :: "'a SerializedState_scheme \<Rightarrow> error + ChannelState" where
  "deserializeChannelState doc =
     (case BigInt (s_nonce doc) of Inl e \<Rightarrow> Inl e | Inr n \<Rightarrow>
     (case createAddress (s_trader doc) of Inl e \<Rightarrow> Inl e | Inr tr \<Rightarrow>
     (case createAddress (s_lp doc) of Inl e \<Rightarrow> Inl e | Inr l \<Rightarrow>
     (case mapThrowing deserializeAmount (s_traderBalances doc) of Inl e \<Rightarrow> Inl e | Inr tb \<Rightarrow>
     (case mapThrowing deserializeAmount (s_lpBalances doc) of Inl e \<Rightarrow> Inl e | Inr lb \<Rightarrow>
     (case BigInt (s_timestamp doc) of Inl e \<Rightarrow> Inl e | Inr ts \<Rightarrow>
        Inr \<lparr> channelId = s_channelId doc, nonce = n, trader = tr, lp = l,
              traderBalances = tb, lpBalances = lb, timestamp = ts,
              chainId = s_chainId doc \<rparr>))))))"

section \<open>The channel manager of \<open>apps/coordinator/src/services/ChannelManager.ts\<close>\<close>

subsection \<open>Stores\<close>

text \<open>
  The manager works on an in-memory cache, a Redis key space and MongoDB collections.
  A document of the \<open>channels\<close> collection holds the serialized state and the fields
  the manager sets next to it; \<open>Date\<close> fields that no modelled operation reads
  (\<open>createdAt\<close>, \<open>updatedAt\<close>, \<open>checkpointAt\<close>, \<open>closedAt\<close>, the heartbeat times) and
  the stored message payloads are left out.  A collection is the list of its documents
  in insertion order: \<open>findOne\<close> and \<open>updateOne\<close> take the first match.  The Redis keys
  \<open>channel:<id>\<close> map to the parsed JSON value (\<open>JSON.parse\<close> of \<open>JSON.stringify\<close> returns
  the serialized object); the keys \<open>lock:channel:<id>\<close> that another holder has set form
  \<open>redisLocks\<close>.  Clock reads are a parameter \<open>now\<close> in milliseconds; the id drawn by
  \<open>createChannelId\<close> is a parameter as well.  Logging is not modelled.
\<close>

record ChannelDoc = SerializedState +
  status :: ChannelStatus
  timeoutAt :: int
  participants :: "string list"
  tokens :: "string list"
  md_traderDeposit :: string
  md_lpDeposit :: string
  md_timeout :: string
  lastMessageType :: "string option"
  checkpointNonce :: "string option"
  finalState :: "SerializedState option"
  finalNonce :: "string option"
  timedOutAt :: "int option"

record MessageDoc =
  msg_channelId :: string
  msg_messageType :: string
  msg_nonce :: string

record CheckpointDoc =
  ck_channelId :: string
  ck_nonce :: string
  ck_stateHash :: string
  ck_state :: SerializedState
  ck_traderSignature :: string
  ck_lpSignature :: string

record QuoteDoc =
  q_quoteId :: string
  q_status :: string

record Metrics =
  channelsCreated :: nat
  channelsClosed :: nat
  stateTransitions :: nat
  timeouts :: nat
  errors :: nat

record Manager =
  channelCache :: "string \<rightharpoonup> ChannelState"
  redisChannels :: "string \<rightharpoonup> SerializedState"
  redisLocks :: "string set"
  dbChannels :: "ChannelDoc list"
  dbMessages :: "MessageDoc list"
  dbCheckpoints :: "CheckpointDoc list"
  dbQuotes :: "QuoteDoc list"
  metrics :: Metrics

text \<open>
  An operation returns its value or the error it throws, and the manager as it is then:
  what was written before a throw stays written.
\<close>

type_synonym 'a outcome = "(error + 'a) \<times> Manager"

definition emptyManager :: Manager where
  "emptyManager =
     \<lparr> channelCache = Map.empty, redisChannels = Map.empty, redisLocks = {},
       dbChannels = [], dbMessages = [], dbCheckpoints = [], dbQuotes = [],
       metrics = \<lparr> channelsCreated = 0, channelsClosed = 0, stateTransitions = 0,
                   timeouts = 0, errors = 0 \<rparr> \<rparr>"

fun updateOne :: "('a \<Rightarrow> bool) \<Rightarrow> ('a \<Rightarrow> 'a) \<Rightarrow> 'a list \<Rightarrow> 'a list" where
  "updateOne P f [] = []"
| "updateOne P f (d # ds) = (if P d then f d # ds else d # updateOne P f ds)"

definition findOne :: "('a \<Rightarrow> bool) \<Rightarrow> 'a list \<Rightarrow> 'a option" where
  "findOne P ds = find P ds"

definition hasChannelId :: "string \<Rightarrow> ChannelDoc \<Rightarrow> bool" where
  "hasChannelId cid d = (s_channelId d = cid)"

text \<open>\<open>$set\<close> of the fields of a serialized state on a stored document.\<close>

definition setSerialized :: "SerializedState \<Rightarrow> ChannelDoc \<Rightarrow> ChannelDoc" where
  "setSerialized s d =
     d\<lparr> s_channelId := s_channelId s, s_nonce := s_nonce s, s_trader := s_trader s,
       s_lp := s_lp s, s_traderBalances := s_traderBalances s,
       s_lpBalances := s_lpBalances s, s_timestamp := s_timestamp s,
       s_chainId := s_chainId s \<rparr>"

definition countError :: "Manager \<Rightarrow> Manager" where
  "countError m = m\<lparr> metrics := (metrics m)\<lparr> errors := errors (metrics m) + 1 \<rparr> \<rparr>"

subsection \<open>Validation helpers\<close>

definition validateChannelParams :: "ChannelParams \<Rightarrow> error + unit" where
  "validateChannelParams params =
     (if p_trader params = p_lp params
        then Inl (ValidationError ''Trader and LP cannot be the same address'')
      else if p_traderDeposit params \<le> 0 \<or> p_lpDeposit params \<le> 0
        then Inl (ValidationError ''Deposits must be positive'')
      else if p_timeout params < CHANNEL_TIMEOUT_MS div 1000
        then Inl (ValidationError ''Timeout too short'')
      else Inr ())"

definition validateStateTransition ::
    "ChannelState \<Rightarrow> ChannelState \<Rightarrow> string \<Rightarrow> error + unit" where
  "validateStateTransition currentState newState messageType =
     (if nonce newState \<le> nonce currentState
        then Inl (ValidationError ''New nonce must be greater than current nonce'')
      else if channelId newState \<noteq> channelId currentState
        then Inl (ValidationError ''Channel ID mismatch'')
      else if trader newState \<noteq> trader currentState \<or> lp newState \<noteq> lp currentState
        then Inl (ValidationError ''Participants cannot change'')
      else if timestamp newState \<le> timestamp currentState
        then Inl (ValidationError ''New timestamp must be greater than current timestamp'')
      else Inr ())"

definition validateQuoteRequest :: "QuoteRequest \<Rightarrow> ChannelState \<Rightarrow> error + unit" where
  "validateQuoteRequest request currentState =
     (if qr_trader request \<noteq> trader currentState
        then Inl (ValidationError ''Quote request must come from channel trader'')
      else if qr_quantity request \<le> 0
        then Inl (ValidationError ''Quote quantity must be positive'')
      else if qr_maxSlippageBps request > MAX_SLIPPAGE_BPS
        then Inl (ValidationError ''Max slippage too high'')
      else Inr ())"

definition validateFill :: "Fill \<Rightarrow> ChannelState \<Rightarrow> error + unit" where
  "validateFill fill currentState =
     (if fill_quantity fill \<le> 0 \<or> fill_price fill \<le> 0
        then Inl (ValidationError ''Fill quantity and price must be positive'')
      else if fill_trader fill \<noteq> trader currentState \<or> fill_lp fill \<noteq> lp currentState
        then Inl (ValidationError ''Fill participants must match channel participants'')
      else Inr ())"

definition validateCancel :: "Cancel \<Rightarrow> ChannelState \<Rightarrow> error + unit" where
  "validateCancel cancel currentState =
     (if cancel_trader cancel \<noteq> trader currentState
        then Inl (ValidationError ''Cancel must come from channel trader'')
      else Inr ())"

definition validateCheckpointRequest :: "CheckpointRequest \<Rightarrow> ChannelState \<Rightarrow> error + unit" where
  "validateCheckpointRequest request currentState =
     (if nonce (cp_state request) \<le> nonce currentState
        then Inl (ValidationError ''Checkpoint nonce must be greater than current nonce'')
      else if channelId (cp_state request) \<noteq> channelId currentState
        then Inl (ValidationError ''Channel ID mismatch in checkpoint'')
      else Inr ())"

definition calculatePostFillState :: "ChannelState \<Rightarrow> Fill \<Rightarrow> ChannelState" where
  "calculatePostFillState currentState fill =
     currentState\<lparr> nonce := fill_nonce fill, timestamp := fill_timestamp fill \<rparr>"

text \<open>
  \<open>calculateStateHash\<close> is \<open>keccak256\<close> of the UTF-8 bytes of the JSON text of the
  serialized state; the composition of \<open>ethers.keccak256\<close>, \<open>toUtf8Bytes\<close> and
  \<open>JSON.stringify\<close> is the parameter \<open>keccakJson\<close>.
\<close>

definition calculateStateHash :: "(SerializedState \<Rightarrow> string) \<Rightarrow> ChannelState \<Rightarrow> string" where
  "calculateStateHash keccakJson state = keccakJson (serializeChannelState state)"

definition notFound :: "string \<Rightarrow> error" where
  "notFound cid = ChannelError (''Channel '' @ cid @ '' not found'')"

subsection \<open>Operations\<close>

definition getChannelStateFailed :: "error \<Rightarrow> error" where
  "getChannelStateFailed e = ChannelError (''Failed to get channel state: '' @ message e)"

definition getChannelState :: "Manager \<Rightarrow> string \<Rightarrow> (ChannelState option) outcome" where
  "getChannelState m cid =
     (case channelCache m cid of
        Some cached \<Rightarrow> (Inr (Some cached), m)
      | None \<Rightarrow>
          (case redisChannels m cid of
             Some redisData \<Rightarrow>
               (case deserializeChannelState redisData of
                  Inl e \<Rightarrow> (Inl (getChannelStateFailed e), m)
                | Inr state \<Rightarrow>
                    (Inr (Some state), m\<lparr> channelCache := (channelCache m)(cid \<mapsto> state) \<rparr>))
           | None \<Rightarrow>
               (case findOne (hasChannelId cid) (dbChannels m) of
                  None \<Rightarrow> (Inr None, m)
                | Some channelDoc \<Rightarrow>
                    (case deserializeChannelState channelDoc of
                       Inl e \<Rightarrow> (Inl (getChannelStateFailed e), m)
                     | Inr state \<Rightarrow>
                         (Inr (Some state),
                          m\<lparr> channelCache := (channelCache m)(cid \<mapsto> state),
                            redisChannels :=
                              (redisChannels m)(cid \<mapsto> serializeChannelState state) \<rparr>)))))"

text \<open>
  \<open>createChannel\<close>: any throw inside is counted and rethrown as a \<open>ChannelError\<close> whose
  message starts with \<open>Failed to create channel:\<close>.
\<close>

definition createChannelFailed :: "error \<Rightarrow> Manager \<Rightarrow> 'a outcome" where
  "createChannelFailed e m =
     (Inl (ChannelError (''Failed to create channel: '' @ message e)), countError m)"

definition createChannel ::
    "Manager \<Rightarrow> ChannelId \<Rightarrow> int \<Rightarrow> ChannelParams \<Rightarrow> (ChannelId \<times> ChannelState) outcome" where
  "createChannel m cid now params =
     (case validateChannelParams params of
        Inl e \<Rightarrow> createChannelFailed e m
      | Inr _ \<Rightarrow>
     (case createTokenAmount (p_tokenIn params) (p_traderDeposit params) of
        Inl e \<Rightarrow> createChannelFailed e m
      | Inr traderAmount \<Rightarrow>
     (case createTokenAmount (p_tokenOut params) (p_lpDeposit params) of
        Inl e \<Rightarrow> createChannelFailed e m
      | Inr lpAmount \<Rightarrow>
          (let initialState =
                 \<lparr> channelId = cid, nonce = 0, trader = p_trader params, lp = p_lp params,
                   traderBalances = [traderAmount], lpBalances = [lpAmount],
                   timestamp = now, chainId = p_chainId params \<rparr>;
               channelDoc =
                 SerializedState.extend (serializeChannelState initialState)
                   (ChannelDoc.fields ACTIVE (now + p_timeout params * 1000)
                      [p_trader params, p_lp params] [p_tokenIn params, p_tokenOut params]
                      (bigintToString (p_traderDeposit params))
                      (bigintToString (p_lpDeposit params))
                      (bigintToString (p_timeout params))
                      None None None None None)
           in (Inr (cid, initialState),
               m\<lparr> dbChannels := dbChannels m @ [channelDoc],
                 channelCache := (channelCache m)(cid \<mapsto> initialState),
                 redisChannels := (redisChannels m)(cid \<mapsto> serializeChannelState initialState),
                 metrics := (metrics m)\<lparr> channelsCreated := channelsCreated (metrics m) + 1 \<rparr> \<rparr>)))))"

text \<open>
  \<open>updateChannelState\<close> runs under \<open>withChannelLock\<close>: when the Redis lock key is held
  and still held at the retry, it throws before the body runs.  The body counts every
  throw in \<open>metrics.errors\<close> and rethrows it.
\<close>

definition lockFailed :: "string \<Rightarrow> error" where
  "lockFailed cid = Error (''Failed to acquire lock for channel '' @ cid)"

text \<open>The writes of \<open>updateChannelState\<close> once the transition is validated, in its order:
  database, cache, Redis, message history, metrics.\<close>

definition commitState :: "Manager \<Rightarrow> string \<Rightarrow> ChannelState \<Rightarrow> string \<Rightarrow> Manager" where
  "commitState m cid newState messageType =
     m\<lparr> dbChannels :=
         updateOne (hasChannelId cid)
           (\<lambda>d. (setSerialized (serializeChannelState newState) d)
                   \<lparr> lastMessageType := Some messageType \<rparr>)
           (dbChannels m),
       channelCache := (channelCache m)(cid \<mapsto> newState),
       redisChannels := (redisChannels m)(cid \<mapsto> serializeChannelState newState),
       dbMessages :=
         dbMessages m @
           [\<lparr> msg_channelId = cid, msg_messageType = messageType,
              msg_nonce = bigintToString (nonce newState) \<rparr>],
       metrics := (metrics m)\<lparr> stateTransitions := stateTransitions (metrics m) + 1 \<rparr> \<rparr>"

definition updateChannelState ::
    "Manager \<Rightarrow> string \<Rightarrow> ChannelState \<Rightarrow> string \<Rightarrow> unit outcome" where
  "updateChannelState m cid newState messageType =
     (if cid \<in> redisLocks m then (Inl (lockFailed cid), m)
      else
        (case getChannelState m cid of
           (Inl e, m1) \<Rightarrow> (Inl e, countError m1)
         | (Inr None, m1) \<Rightarrow> (Inl (notFound cid), countError m1)
         | (Inr (Some currentState), m1) \<Rightarrow>
             (case validateStateTransition currentState newState messageType of
                Inl e \<Rightarrow> (Inl e, countError m1)
              | Inr _ \<Rightarrow> (Inr (), commitState m1 cid newState messageType))))"

definition processQuoteRequest :: "Manager \<Rightarrow> QuoteRequest \<Rightarrow> unit outcome" where
  "processQuoteRequest m request =
     (let cid = qr_channelId request in
      case getChannelState m cid of
        (Inl e, m1) \<Rightarrow> (Inl e, m1)
      | (Inr None, m1) \<Rightarrow> (Inl (notFound cid), m1)
      | (Inr (Some currentState), m1) \<Rightarrow>
          (case validateQuoteRequest request currentState of
             Inl e \<Rightarrow> (Inl e, m1)
           | Inr _ \<Rightarrow>
               updateChannelState m1 cid
                 (currentState\<lparr> nonce := qr_nonce request, timestamp := qr_timestamp request \<rparr>)
                 ''QUOTE_REQUEST''))"

definition processFill :: "Manager \<Rightarrow> Fill \<Rightarrow> ChannelState outcome" where
  "processFill m fill =
     (let cid = fill_channelId fill in
      case getChannelState m cid of
        (Inl e, m1) \<Rightarrow> (Inl e, m1)
      | (Inr None, m1) \<Rightarrow> (Inl (notFound cid), m1)
      | (Inr (Some currentState), m1) \<Rightarrow>
          (case validateFill fill currentState of
             Inl e \<Rightarrow> (Inl e, m1)
           | Inr _ \<Rightarrow>
               (let newState = calculatePostFillState currentState fill in
                case updateChannelState m1 cid newState ''FILL'' of
                  (Inl e, m2) \<Rightarrow> (Inl e, m2)
                | (Inr _, m2) \<Rightarrow> (Inr newState, m2))))"

definition markCancelled :: "Manager \<Rightarrow> string \<Rightarrow> Manager" where
  "markCancelled m quoteId =
     m\<lparr> dbQuotes :=
         updateOne (\<lambda>q. q_quoteId q = quoteId) (\<lambda>q. q\<lparr> q_status := ''CANCELLED'' \<rparr>)
           (dbQuotes m) \<rparr>"

definition processCancel :: "Manager \<Rightarrow> Cancel \<Rightarrow> unit outcome" where
  "processCancel m cancel =
     (let cid = cancel_channelId cancel in
      case getChannelState m cid of
        (Inl e, m1) \<Rightarrow> (Inl e, m1)
      | (Inr None, m1) \<Rightarrow> (Inl (notFound cid), m1)
      | (Inr (Some currentState), m1) \<Rightarrow>
          (case validateCancel cancel currentState of
             Inl e \<Rightarrow> (Inl e, m1)
           | Inr _ \<Rightarrow>
               (case updateChannelState m1 cid
                       (currentState\<lparr> nonce := cancel_nonce cancel,
                                      timestamp := cancel_timestamp cancel \<rparr>)
                       ''CANCEL'' of
                  (Inl e, m2) \<Rightarrow> (Inl e, m2)
                | (Inr _, m2) \<Rightarrow> (Inr (), markCancelled m2 (cancel_quoteId cancel)))))"

text \<open>
  \<open>processHeartbeat\<close> only writes heartbeat times and refreshes the Redis expiry; what
  remains of it here is the lookup.
\<close>

definition processHeartbeat :: "Manager \<Rightarrow> Heartbeat \<Rightarrow> unit outcome" where
  "processHeartbeat m heartbeat =
     (let cid = hb_channelId heartbeat in
      case getChannelState m cid of
        (Inl e, m1) \<Rightarrow> (Inl e, m1)
      | (Inr None, m1) \<Rightarrow> (Inl (notFound cid), m1)
      | (Inr (Some currentState), m1) \<Rightarrow> (Inr (), m1))"

text \<open>The writes of \<open>createCheckpoint\<close>: the status of the stored channel, then the
  checkpoint document.\<close>

definition recordCheckpoint ::
    "(SerializedState \<Rightarrow> string) \<Rightarrow> Manager \<Rightarrow> string \<Rightarrow> CheckpointRequest \<Rightarrow> Manager" where
  "recordCheckpoint keccakJson m cid request =
     m\<lparr> dbChannels :=
         updateOne (hasChannelId cid)
           (\<lambda>d. d\<lparr> status := CHECKPOINTING,
                   checkpointNonce := Some (bigintToString (nonce (cp_state request))) \<rparr>)
           (dbChannels m),
       dbCheckpoints :=
         dbCheckpoints m @
           [\<lparr> ck_channelId = cid,
              ck_nonce = bigintToString (nonce (cp_state request)),
              ck_stateHash = calculateStateHash keccakJson (cp_state request),
              ck_state = serializeChannelState (cp_state request),
              ck_traderSignature = cp_traderSignature request,
              ck_lpSignature = cp_lpSignature request \<rparr>] \<rparr>"

definition createCheckpoint ::
    "(SerializedState \<Rightarrow> string) \<Rightarrow> Manager \<Rightarrow> CheckpointRequest \<Rightarrow> unit outcome" where
  "createCheckpoint keccakJson m request =
     (let cid = cp_channelId request in
      case getChannelState m cid of
        (Inl e, m1) \<Rightarrow> (Inl e, m1)
      | (Inr None, m1) \<Rightarrow> (Inl (notFound cid), m1)
      | (Inr (Some currentState), m1) \<Rightarrow>
          (case validateCheckpointRequest request currentState of
             Inl e \<Rightarrow> (Inl e, m1)
           | Inr _ \<Rightarrow> (Inr (), recordCheckpoint keccakJson m1 cid request)))"

text \<open>The writes of \<open>closeChannel\<close>: the stored status and final state, then the
  eviction from cache and Redis.\<close>

definition markSettling :: "Manager \<Rightarrow> string \<Rightarrow> ChannelState \<Rightarrow> Manager" where
  "markSettling m cid finalSt =
     m\<lparr> dbChannels :=
         updateOne (hasChannelId cid)
           (\<lambda>d. d\<lparr> status := SETTLING,
                   finalState := Some (serializeChannelState finalSt),
                   finalNonce := Some (bigintToString (nonce finalSt)) \<rparr>)
           (dbChannels m),
       channelCache := (channelCache m)(cid := None),
       redisChannels := (redisChannels m)(cid := None),
       metrics := (metrics m)\<lparr> channelsClosed := channelsClosed (metrics m) + 1 \<rparr> \<rparr>"

definition closeChannel :: "Manager \<Rightarrow> string \<Rightarrow> ChannelState \<Rightarrow> unit outcome" where
  "closeChannel m cid finalSt =
     (case getChannelState m cid of
        (Inl e, m1) \<Rightarrow> (Inl e, m1)
      | (Inr None, m1) \<Rightarrow> (Inl (notFound cid), m1)
      | (Inr (Some currentState), m1) \<Rightarrow>
          if nonce finalSt < nonce currentState
            then (Inl (ValidationError ''Final state nonce cannot be lower than current nonce''), m1)
          else (Inr (), markSettling m1 cid finalSt))"

text \<open>The timer callback and the periodic clean-up; both swallow their errors.\<close>

definition handleChannelTimeout :: "Manager \<Rightarrow> string \<Rightarrow> int \<Rightarrow> Manager" where
  "handleChannelTimeout m cid now =
     m\<lparr> dbChannels :=
         updateOne (hasChannelId cid)
           (\<lambda>d. d\<lparr> status := TIMEOUT, timedOutAt := Some now \<rparr>) (dbChannels m),
       channelCache := (channelCache m)(cid := None),
       metrics := (metrics m)\<lparr> timeouts := timeouts (metrics m) + 1 \<rparr> \<rparr>"

definition isExpiredDoc :: "int \<Rightarrow> ChannelDoc \<Rightarrow> bool" where
  "isExpiredDoc now d =
     (status d = TIMEOUT \<and>
      (case timedOutAt d of None \<Rightarrow> False | Some t \<Rightarrow> t < now - 24 * 60 * 60 * 1000))"

definition cleanupExpiredChannels :: "Manager \<Rightarrow> int \<Rightarrow> Manager" where
  "cleanupExpiredChannels m now =
     m\<lparr> dbChannels :=
         foldl (\<lambda>ds channel.
                  updateOne (hasChannelId (s_channelId channel)) (\<lambda>d. d\<lparr> status := EXPIRED \<rparr>) ds)
           (dbChannels m) (filter (isExpiredDoc now) (dbChannels m)) \<rparr>"

subsection \<open>Well-formed addresses\<close>

text \<open>
  The wire format of an address: \<open>0x\<close> followed by 40 lower-case hexadecimal digits.
  A state is in wire format when its participants and the tokens of its balance
  entries are.
\<close>

definition lowerAddress :: "string \<Rightarrow> bool" where
  "lowerAddress a =
     (case a of
        x # y # digits \<Rightarrow>
          x = CHR ''0'' \<and> y = CHR ''x'' \<and> length digits = 40 \<and> list_all lowerHex digits
      | _ \<Rightarrow> False)"

definition wireFormat :: "ChannelState \<Rightarrow> bool" where
  "wireFormat st =
     (lowerAddress (trader st) \<and> lowerAddress (lp st) \<and>
      list_all (\<lambda>b. lowerAddress (token b)) (traderBalances st) \<and>
      list_all (\<lambda>b. lowerAddress (token b)) (lpBalances st))"

section \<open>The seed scenario S1\<close>

text \<open>
  The participants, tokens and parameters of scenario S1, with addresses in wire format;
  the timeout is one hour, in the seconds the manager counts in.
\<close>

definition traderS1 :: Address where
  "traderS1 = ''0xaaaaaaaaaaaaaaaaaaaaaaaaaaaaaaaaaaaaaa01''"

definition lpS1 :: Address where
  "lpS1 = ''0xbbbbbbbbbbbbbbbbbbbbbbbbbbbbbbbbbbbbbb02''"

definition usdc :: Address where
  "usdc = ''0xa0b86991c6218b36c1d19d4a2e9eb0ce3606eb48''"

definition weth :: Address where
  "weth = ''0xc02aaa39b223fe8d0a0e5c4f27ead9083c756cc2''"

definition paramsS1 :: ChannelParams where
  "paramsS1 =
     \<lparr> p_trader = traderS1, p_lp = lpS1, p_tokenIn = usdc, p_tokenOut = weth,
       p_traderDeposit = 1000000000, p_lpDeposit = 1000000000000000000,
       p_chainId = 1, p_timeout = 3600 \<rparr>"

definition stateS1 :: ChannelState where
  "stateS1 =
     \<lparr> channelId = ''ch01'', nonce = 0, trader = traderS1, lp = lpS1,
       traderBalances = [\<lparr> token = usdc, amount = 1000000000 \<rparr>],
       lpBalances = [\<lparr> token = weth, amount = 1000000000000000000 \<rparr>],
       timestamp = 1000, chainId = 1 \<rparr>"

definition quoteRequestS1 :: QuoteRequest where
  "quoteRequestS1 =
     \<lparr> qr_channelId = ''ch01'', qr_nonce = 1, qr_side = BUY, qr_baseToken = weth,
       qr_quoteToken = usdc, qr_quantity = 500000000000000000, qr_maxSlippageBps = 50,
       qr_timestamp = 2000, qr_trader = traderS1 \<rparr>"

definition fillS1 :: Fill where
  "fillS1 =
     \<lparr> fill_channelId = ''ch01'', fill_quoteId = ''Q1'', fill_fillId = ''F1'', fill_nonce = 2,
       fill_quantity = 500000000000000000, fill_price = 2000000000000000000000,
       fill_timestamp = 3000, fill_trader = traderS1, fill_lp = lpS1 \<rparr>"

text \<open>The states that the quote request and the fill of S1 lead to.\<close>

definition state1S1 :: ChannelState where
  "state1S1 = stateS1\<lparr> nonce := 1, timestamp := 2000 \<rparr>"

definition state2S1 :: ChannelState where
  "state2S1 = stateS1\<lparr> nonce := 2, timestamp := 3000 \<rparr>"

text \<open>The manager after the channel is opened, after the quote request, after the fill.\<close>

definition openedS1 :: Manager where
  "openedS1 = snd (createChannel emptyManager ''ch01'' 1000 paramsS1)"

definition requestedS1 :: Manager where
  "requestedS1 = snd (processQuoteRequest openedS1 quoteRequestS1)"

definition filledS1 :: Manager where
  "filledS1 = snd (processFill requestedS1 fillS1)"

text \<open>
  Variations of S1: a token that is not an address, the channel after its timeout fired,
  a checkpoint request for the state after the fill, and one for a state one nonce
  further.
\<close>

definition paramsBadToken :: ChannelParams where
  "paramsBadToken = paramsS1\<lparr> p_tokenIn := ''USDC'' \<rparr>"


definition checkpointS6 :: CheckpointRequest where
  "checkpointS6 =
     \<lparr> cp_channelId = ''ch01'', cp_state = state2S1,
       cp_traderSignature = ''0x'' @ replicate 130 (CHR ''1''),
       cp_lpSignature = ''0x'' @ replicate 130 (CHR ''2'') \<rparr>"

definition checkpointNext :: CheckpointRequest where
  "checkpointNext = checkpointS6\<lparr> cp_state := state2S1\<lparr> nonce := 3, timestamp := 4000 \<rparr> \<rparr>"






text \<open>
  Further variations: a state with another trader balance, submitted directly, and the
  channel of S1 opened with the trader's address in upper case, its cache entry dropped
  by the timeout after the quote request.
\<close>

definition inflatedS1 :: ChannelState where
  "inflatedS1 =
     stateS1\<lparr> nonce := 1, timestamp := 2000,
              traderBalances := [\<lparr> token = usdc, amount = 1000000000000000000000000000000 \<rparr>] \<rparr>"

definition traderUpper :: Address where
  "traderUpper = ''0xAAAAAAAAAAAAAAAAAAAAAAAAAAAAAAAAAAAAAA01''"

definition paramsUpper :: ChannelParams where
  "paramsUpper = paramsS1\<lparr> p_trader := traderUpper \<rparr>"


definition openedUpper :: Manager where
  "openedUpper = snd (createChannel emptyManager ''ch01'' 1000 paramsUpper)"


section \<open>Runs of operations on a channel\<close>

text \<open>
  The three message handlers share one shape: look the channel up, validate the message
  against the current state, and submit the current state with the nonce and the
  timestamp of the message.  \<open>attempt\<close> is that shape, for the proofs.
\<close>

definition attempt ::
    "(ChannelState \<Rightarrow> error + unit) \<Rightarrow> int \<Rightarrow> int \<Rightarrow> string \<Rightarrow> Manager \<Rightarrow> string \<Rightarrow> unit outcome" where
  "attempt v n t messageType m cid =
     (case getChannelState m cid of
        (Inl e, m1) \<Rightarrow> (Inl e, m1)
      | (Inr None, m1) \<Rightarrow> (Inl (notFound cid), m1)
      | (Inr (Some currentState), m1) \<Rightarrow>
          (case v currentState of
             Inl e \<Rightarrow> (Inl e, m1)
           | Inr _ \<Rightarrow>
               updateChannelState m1 cid
                 (currentState\<lparr> nonce := n, timestamp := t \<rparr>) messageType))"

text \<open>
  What a caller or the timer can do with a channel.  \<open>SubmitState\<close> is a direct call of
  \<open>updateChannelState\<close>; the others are the message handlers, the checkpoint and close
  requests, the timeout callback and the periodic clean-up.
\<close>

datatype operation =
    SubmitState string ChannelState string
  | SubmitQuoteRequest QuoteRequest
  | SubmitFill Fill
  | SubmitCancel Cancel
  | SubmitHeartbeat Heartbeat
  | SubmitCheckpoint CheckpointRequest
  | Close string ChannelState
  | FireTimeout string int
  | Cleanup int

fun channelOf :: "operation \<Rightarrow> string option" where
  "channelOf (SubmitState cid newState messageType) = Some cid"
| "channelOf (SubmitQuoteRequest request) = Some (qr_channelId request)"
| "channelOf (SubmitFill fill) = Some (fill_channelId fill)"
| "channelOf (SubmitCancel cancel) = Some (cancel_channelId cancel)"
| "channelOf (SubmitHeartbeat heartbeat) = Some (hb_channelId heartbeat)"
| "channelOf (SubmitCheckpoint request) = Some (cp_channelId request)"
| "channelOf (Close cid finalSt) = Some cid"
| "channelOf (FireTimeout cid now) = Some cid"
| "channelOf (Cleanup now) = None"

definition onChannel :: "string \<Rightarrow> operation \<Rightarrow> bool" where
  "onChannel cid op = (case channelOf op of None \<Rightarrow> True | Some c \<Rightarrow> c = cid)"

fun isMessage :: "operation \<Rightarrow> bool" where
  "isMessage (SubmitState cid newState messageType) = False"
| "isMessage op = True"

text \<open>
  \<open>perform\<close> runs one operation.  Its first component is the state that the operation
  made the current state of its channel, when it is an accepted state transition, and
  \<open>None\<close> otherwise.
\<close>

fun perform ::
    "(SerializedState \<Rightarrow> string) \<Rightarrow> Manager \<Rightarrow> operation \<Rightarrow> ChannelState option \<times> Manager" where
  "perform k m (SubmitState cid newState messageType) =
     (case updateChannelState m cid newState messageType of
        (Inl e, m') \<Rightarrow> (None, m')
      | (Inr u, m') \<Rightarrow> (Some newState, m'))"
| "perform k m (SubmitQuoteRequest request) =
     (case processQuoteRequest m request of
        (Inl e, m') \<Rightarrow> (None, m')
      | (Inr u, m') \<Rightarrow> (channelCache m' (qr_channelId request), m'))"
| "perform k m (SubmitFill fill) =
     (case processFill m fill of
        (Inl e, m') \<Rightarrow> (None, m')
      | (Inr newState, m') \<Rightarrow> (Some newState, m'))"
| "perform k m (SubmitCancel cancel) =
     (case processCancel m cancel of
        (Inl e, m') \<Rightarrow> (None, m')
      | (Inr u, m') \<Rightarrow> (channelCache m' (cancel_channelId cancel), m'))"
| "perform k m (SubmitHeartbeat heartbeat) = (None, snd (processHeartbeat m heartbeat))"
| "perform k m (SubmitCheckpoint request) = (None, snd (createCheckpoint k m request))"
| "perform k m (Close cid finalSt) = (None, snd (closeChannel m cid finalSt))"
| "perform k m (FireTimeout cid now) = (None, handleChannelTimeout m cid now)"
| "perform k m (Cleanup now) = (None, cleanupExpiredChannels m now)"

fun run :: "(SerializedState \<Rightarrow> string) \<Rightarrow> Manager \<Rightarrow> operation list \<Rightarrow> Manager" where
  "run k m [] = m"
| "run k m (op # ops) = run k (snd (perform k m op)) ops"

text \<open>The states accepted in a run, in the order of their acceptance.\<close>

fun accepted ::
    "(SerializedState \<Rightarrow> string) \<Rightarrow> Manager \<Rightarrow> operation list \<Rightarrow> ChannelState list" where
  "accepted k m [] = []"
| "accepted k m (op # ops) =
     (case perform k m op of
        (None, m') \<Rightarrow> accepted k m' ops
      | (Some s, m') \<Rightarrow> s # accepted k m' ops)"

text \<open>
  An id is unused when no stored channel document carries it.  The balance of a token
  in a balance vector is the sum of the entries of that token.
\<close>

definition unusedId :: "Manager \<Rightarrow> string \<Rightarrow> bool" where
  "unusedId m cid = (findOne (hasChannelId cid) (dbChannels m) = None)"

definition balanceOf :: "Address \<Rightarrow> TokenAmount list \<Rightarrow> int" where
  "balanceOf t bs = sum_list (map amount (filter (\<lambda>b. token b = t) bs))"

text \<open>
  The three places a channel state is read from agree on a property \<open>R\<close> of the result
  of reading: the cache entry and the Redis value, each when present, and the first
  stored document of the id, where a missing document reads as the error of a channel
  that is not found.  The cached and the Redis value also carry the id they are stored
  under.
\<close>

definition agree :: "((error + ChannelState) \<Rightarrow> bool) \<Rightarrow> Manager \<Rightarrow> string \<Rightarrow> bool" where
  "agree R m cid =
     ((case channelCache m cid of None \<Rightarrow> True | Some s \<Rightarrow> R (Inr s) \<and> channelId s = cid) \<and>
      (case redisChannels m cid of
         None \<Rightarrow> True
       | Some r \<Rightarrow> R (deserializeChannelState r) \<and> s_channelId r = cid) \<and>
      (case findOne (hasChannelId cid) (dbChannels m) of
         None \<Rightarrow> R (Inl (notFound cid))
       | Some d \<Rightarrow> R (deserializeChannelState d)))"

definition stable :: "((error + ChannelState) \<Rightarrow> bool) \<Rightarrow> bool" where
  "stable R = (\<forall>s. R (Inr s) \<longrightarrow> R (deserializeChannelState (serializeChannelState s)))"

text \<open>Properties of a read that the stores are shown to agree on.\<close>

definition nonceIs :: "int \<Rightarrow> (error + ChannelState) \<Rightarrow> bool" where
  "nonceIs n x = (case x of Inl e \<Rightarrow> True | Inr s \<Rightarrow> nonce s = n)"

definition balancesAre ::
    "TokenAmount list \<Rightarrow> TokenAmount list \<Rightarrow> (error + ChannelState) \<Rightarrow> bool" where
  "balancesAre tb lb x =
     (case x of Inl e \<Rightarrow> True | Inr s \<Rightarrow> traderBalances s = tb \<and> lpBalances s = lb)"

text \<open>The manager with the status of every stored channel replaced by one status.\<close>

definition withStatus :: "ChannelStatus \<Rightarrow> Manager \<Rightarrow> Manager" where
  "withStatus st m = m\<lparr> dbChannels := map (\<lambda>d. d\<lparr> status := st \<rparr>) (dbChannels m) \<rparr>"





section \<open>Digits and numerals\<close>

lemma lowerHex_table:
  "\<forall>c\<in>set ''0123456789abcdef''.
     (case digitValue c of None \<Rightarrow> False | Some d \<Rightarrow> d < 16 \<and> digitChar d = c) \<and>
     \<not> isWhiteSpace c \<and> c \<noteq> CHR ''-'' \<and> c \<noteq> CHR ''+'' \<and> c \<noteq> CHR ''x'' \<and> c \<noteq> CHR ''X''"
  by code_simp

lemma digitChar_table: "\<forall>d\<in>set [0..<16]. digitValue (digitChar d) = Some d"
  by code_simp

lemma lowerHex_digitValue:
  assumes "lowerHex c"
  shows "\<exists>d. digitValue c = Some d \<and> d < 16 \<and> digitChar d = c"
proof -
  have "c \<in> set ''0123456789abcdef''" using assms unfolding lowerHex_def .
  from bspec[OF lowerHex_table this] show ?thesis
    by (cases "digitValue c") simp_all
qed

lemma lowerHex_facts:
  assumes "lowerHex c"
  shows "\<not> isWhiteSpace c \<and> c \<noteq> CHR ''-'' \<and> c \<noteq> CHR ''+'' \<and> c \<noteq> CHR ''x''
      \<and> c \<noteq> CHR ''X'' \<and> isDigitIn 16 c"
proof -
  have "c \<in> set ''0123456789abcdef''" using assms unfolding lowerHex_def .
  from bspec[OF lowerHex_table this] show ?thesis
    by (cases "digitValue c") (simp_all add: isDigitIn_def)
qed

lemma digitValue_digitChar: "d < 16 \<Longrightarrow> digitValue (digitChar d) = Some d"
proof -
  assume "d < 16"
  then have "d \<in> set [0..<16]" by simp
  from bspec[OF digitChar_table this] show ?thesis .
qed

lemma isDigitIn_digitChar: "d < radix \<Longrightarrow> radix \<le> 16 \<Longrightarrow> isDigitIn radix (digitChar d)"
  by (simp add: isDigitIn_def digitValue_digitChar)

lemma digitsIn_nonempty: "digitsIn radix n \<noteq> []"
  by (subst digitsIn.simps) simp

lemma digitsIn_small: "n < radix \<Longrightarrow> digitsIn radix n = [digitChar n]"
  by (subst digitsIn.simps) simp

lemma valueIn_snoc:
  "valueIn radix (ds @ [c]) = radix * valueIn radix ds + (case digitValue c of None \<Rightarrow> 0 | Some d \<Rightarrow> d)"
  by (simp add: valueIn_def)

lemma valueIn_digitsIn:
  "2 \<le> radix \<Longrightarrow> radix \<le> 16 \<Longrightarrow> valueIn radix (digitsIn radix n) = n"
proof (induction radix n rule: digitsIn.induct)
  case (1 radix n)
  show ?case
  proof (cases "n < radix")
    case True
    with 1 show ?thesis
      by (simp add: digitsIn_small valueIn_def digitValue_digitChar)
  next
    case False
    with 1 have ih: "valueIn radix (digitsIn radix (n div radix)) = n div radix"
      by simp
    have m: "n mod radix < 16" using 1(2,3)
    proof -
      have "n mod radix < radix" using 1(2) by simp
      then show ?thesis using 1(3) by linarith
    qed
    show ?thesis using False 1(2)
      apply (subst digitsIn.simps)
      apply (simp add: valueIn_snoc ih digitValue_digitChar[OF m])
      done
  qed
qed

lemma digitsIn_all:
  "2 \<le> radix \<Longrightarrow> radix \<le> 16 \<Longrightarrow> list_all (isDigitIn radix) (digitsIn radix n)"
proof (induction radix n rule: digitsIn.induct)
  case (1 radix n)
  show ?case
  proof (cases "n < radix")
    case True
    with 1 show ?thesis by (simp add: digitsIn_small isDigitIn_digitChar)
  next
    case False
    with 1 have ih: "list_all (isDigitIn radix) (digitsIn radix (n div radix))"
      by simp
    have "n mod radix < radix" using 1(2) by simp
    then have "isDigitIn radix (digitChar (n mod radix))"
      using 1(3) by (rule isDigitIn_digitChar)
    then show ?thesis using False 1(2) ih
      by (subst digitsIn.simps) simp
  qed
qed

lemma digitsIn_two:
  "a < 16 \<Longrightarrow> 0 < a \<Longrightarrow> b < 16 \<Longrightarrow> digitsIn 16 (16 * a + b) = [digitChar a, digitChar b]"
  by (subst digitsIn.simps) (simp add: digitsIn_small)

lemma parseInt16_two:
  assumes "lowerHex a" "lowerHex b" "digitValue a = Some x" "digitValue b = Some y"
  shows "parseInt16 [a, b] = Finite (int (16 * x + y))"
  using lowerHex_facts[OF assms(1)] lowerHex_facts[OF assms(2)] assms(3,4)
  by (simp add: parseInt16_def valueIn_def)

lemma digitChar_0: "digitChar 0 = CHR ''0''"
  by (simp add: digitChar_def)

lemma padStart_two:
  assumes "lowerHex a" "lowerHex b"
  shows "padStart (numberToString16 (parseInt16 [a, b])) 2 (CHR ''0'') = [a, b]"
proof -
  obtain x where x: "digitValue a = Some x" "x < 16" "digitChar x = a"
    using lowerHex_digitValue[OF assms(1)] by blast
  obtain y where y: "digitValue b = Some y" "y < 16" "digitChar y = b"
    using lowerHex_digitValue[OF assms(2)] by blast
  have p: "parseInt16 [a, b] = Finite (int (16 * x + y))"
    using parseInt16_two[OF assms x(1) y(1)] .
  have n: "numberToString16 (parseInt16 [a, b]) = digitsIn 16 (16 * x + y)"
    unfolding p numberToString16_def by (simp del: of_nat_add of_nat_mult)
  show ?thesis
  proof (cases "x = 0")
    case True
    then have "a = CHR ''0''" using x(3) digitChar_0 by simp
    then show ?thesis unfolding n using True y
      by (simp add: padStart_def digitsIn_small)
  next
    case False
    then have "digitsIn 16 (16 * x + y) = [a, b]"
      using digitsIn_two[of x y] x y by simp
    then show ?thesis unfolding n
      by (simp add: padStart_def)
  qed
qed

lemma length_two: "length xs = 2 \<Longrightarrow> xs = [xs ! 0, xs ! 1]"
  by (cases xs; cases "tl xs") auto

lemma drop_128: "length body = 130 \<Longrightarrow> drop 128 body = [body ! 128, body ! 129]"
  using length_two[of "drop 128 body"] by simp

section \<open>Signatures\<close>

text \<open>
  Claim C10.  For every signature string \<open>0x\<close> followed by exactly 130 lower-case
  hexadecimal digits, joining the split signature gives the string back; \<open>r\<close> is
  \<open>0x\<close> and the first 64 digits (32 bytes), \<open>s\<close> is \<open>0x\<close> and the next 64 digits, and
  \<open>v\<close> is the value of the last two digits (the final byte).
\<close>

theorem splitSignature_roundtrip:
  assumes "length body = 130" and "list_all lowerHex body"
  shows "joinSignature (splitSignature (''0x'' @ body)) = ''0x'' @ body
       \<and> sig_r (splitSignature (''0x'' @ body)) = ''0x'' @ take 64 body
       \<and> sig_s (splitSignature (''0x'' @ body)) = ''0x'' @ take 64 (drop 64 body)
       \<and> (\<exists>x y. digitValue (body ! 128) = Some x \<and> digitValue (body ! 129) = Some y
             \<and> sig_v (splitSignature (''0x'' @ body)) = Finite (int (16 * x + y)))"
proof -
  have d: "drop 128 body = [body ! 128, body ! 129]"
    using assms(1) by (rule drop_128)
  have h: "lowerHex (body ! 128)" "lowerHex (body ! 129)"
    using assms by (simp_all add: list_all_length)
  have v: "sig_v (splitSignature (''0x'' @ body)) = parseInt16 [body ! 128, body ! 129]"
    using assms(1) d by (simp add: splitSignature_def sliceFrom_def slice_def)
  have body: "take 64 body @ take 64 (drop 64 body) @ [body ! 128, body ! 129] = body"
  proof -
    have "take 64 (drop 64 body) @ drop 128 body = drop 64 body"
      using append_take_drop_id[of 64 "drop 64 body"] by simp
    then show ?thesis using append_take_drop_id[of 64 body] d by simp
  qed
  have j: "joinSignature (splitSignature (''0x'' @ body)) = ''0x'' @ body"
    using assms(1) d padStart_two[OF h] body
    by (simp add: joinSignature_def splitSignature_def sliceFrom_def slice_def)
  have r: "sig_r (splitSignature (''0x'' @ body)) = ''0x'' @ take 64 body"
    by (simp add: splitSignature_def sliceFrom_def slice_def)
  have s: "sig_s (splitSignature (''0x'' @ body)) = ''0x'' @ take 64 (drop 64 body)"
    by (simp add: splitSignature_def sliceFrom_def slice_def)
  obtain x where x: "digitValue (body ! 128) = Some x"
    using lowerHex_digitValue[OF h(1)] by blast
  obtain y where y: "digitValue (body ! 129) = Some y"
    using lowerHex_digitValue[OF h(2)] by blast
  have "sig_v (splitSignature (''0x'' @ body)) = Finite (int (16 * x + y))"
    unfolding v by (rule parseInt16_two[OF h x y])
  with x y have "\<exists>x y. digitValue (body ! 128) = Some x \<and> digitValue (body ! 129) = Some y
             \<and> sig_v (splitSignature (''0x'' @ body)) = Finite (int (16 * x + y))"
    by blast
  with j r s show ?thesis by blast
qed

theorem splitSignature_roundtrip_witness:
  "joinSignature (splitSignature (''0x'' @ replicate 128 (CHR ''a'') @ ''1b''))
     = ''0x'' @ replicate 128 (CHR ''a'') @ ''1b''
   \<and> sig_r (splitSignature (''0x'' @ replicate 128 (CHR ''a'') @ ''1b''))
     = ''0x'' @ replicate 64 (CHR ''a'')
   \<and> sig_s (splitSignature (''0x'' @ replicate 128 (CHR ''a'') @ ''1b''))
     = ''0x'' @ replicate 64 (CHR ''a'')
   \<and> sig_v (splitSignature (''0x'' @ replicate 128 (CHR ''a'') @ ''1b'')) = Finite 27"
proof -
  let ?body = "replicate 128 (CHR ''a'') @ ''1b''"
  have l: "length ?body = 130" by simp
  have h: "list_all lowerHex ?body" by (simp add: lowerHex_def list_all_iff)
  have n: "?body ! 128 = CHR ''1''" "?body ! 129 = CHR ''b''"
    by (simp_all add: nth_append)
  have dv: "digitValue (CHR ''1'') = Some 1" "digitValue (CHR ''b'') = Some 11"
    by (simp_all add: digitValue_def digitTable_def)
  from splitSignature_roundtrip [OF l h] show ?thesis
    unfolding n using dv by (auto simp: take_replicate)
qed

text \<open>
  Claim C3.  \<open>validateSignature\<close> is to return true only when the signature recovers
  to the expected signer.  The function compares lengths only: one and the same
  signature over one and the same hash validates for two different signers, one of
  them the non-participant of scenario S3.
\<close>

theorem validateSignature_ignores_signer:
  "validateSignature (''0x'' @ replicate 130 (CHR ''0''))
       ''0xcccccccccccccccccccccccccccccccccccccc03'' ''0x00''
   \<and> validateSignature (''0x'' @ replicate 130 (CHR ''0''))
       ''0xaaaaaaaaaaaaaaaaaaaaaaaaaaaaaaaaaaaaaa01'' ''0x00''"
  by (simp add: validateSignature_def)

section \<open>Serialization\<close>

lemma digitValue_key: "digitValue c = Some d \<Longrightarrow> (c, d) \<in> set digitTable"
  unfolding digitValue_def by (rule map_of_SomeD)

lemma decimal_keys:
  assumes "isDigitIn 10 c"
  shows "c \<in> set ''0123456789''"
proof -
  obtain d where d: "digitValue c = Some d" "d < 10"
    using assms by (cases "digitValue c") (simp_all add: isDigitIn_def)
  from digitValue_key[OF d(1)] d(2) show ?thesis
    by (auto simp: digitTable_def)
qed

lemma hex_keys:
  assumes "isDigitIn 16 c"
  shows "c \<in> set ''0123456789abcdefABCDEF''"
proof -
  obtain d where d: "digitValue c = Some d"
    using assms by (cases "digitValue c") (simp_all add: isDigitIn_def)
  from digitValue_key[OF d] show ?thesis
    by (auto simp: digitTable_def)
qed

lemma decimal_table:
  "\<forall>c\<in>set ''0123456789''.
     \<not> isWhiteSpace c \<and> c \<noteq> CHR ''-'' \<and> c \<noteq> CHR ''+'' \<and> radixOfPrefix c = None"
  by code_simp

lemma decimal_facts:
  assumes "isDigitIn 10 c"
  shows "\<not> isWhiteSpace c \<and> c \<noteq> CHR ''-'' \<and> c \<noteq> CHR ''+'' \<and> radixOfPrefix c = None"
  using bspec[OF decimal_table decimal_keys[OF assms]] .

lemma dropWhile_hd: "xs \<noteq> [] \<Longrightarrow> \<not> P (hd xs) \<Longrightarrow> dropWhile P xs = xs"
  by (cases xs) simp_all

lemma trimString_id:
  assumes "xs \<noteq> []" "\<not> isWhiteSpace (hd xs)" "\<not> isWhiteSpace (last xs)"
  shows "trimString xs = xs"
proof -
  have 1: "dropWhile isWhiteSpace xs = xs"
    using assms(1,2) by (rule dropWhile_hd)
  have "rev xs \<noteq> []" "\<not> isWhiteSpace (hd (rev xs))"
    using assms(1,3) by (simp_all add: hd_rev)
  then have 2: "dropWhile isWhiteSpace (rev xs) = rev xs"
    by (rule dropWhile_hd)
  show ?thesis by (simp add: trimString_def 1 2)
qed

lemma BigInt_decimal:
  assumes "ds \<noteq> []" "list_all (isDigitIn 10) ds"
  shows "BigInt ds = Inr (int (valueIn 10 ds))"
proof -
  have h: "isDigitIn 10 (hd ds)" and l: "isDigitIn 10 (last ds)"
    using assms by (simp_all add: list_all_iff)
  have t: "trimString ds = ds"
    using assms(1) decimal_facts[OF h] decimal_facts[OF l] by (simp add: trimString_id)
  have s: "signedDecimal ds ds = Inr (int (valueIn 10 ds))"
    using assms decimal_facts[OF h]
    by (cases ds) (simp_all add: signedDecimal_def isNumeral_def)
  show ?thesis
  proof (cases ds)
    case Nil
    then show ?thesis using assms by simp
  next
    case (Cons a as)
    show ?thesis
    proof (cases as)
      case Nil
      then show ?thesis using Cons t s by (simp add: BigInt_def Let_def)
    next
      case (Cons b bs)
      have "isDigitIn 10 b" using assms(2) \<open>ds = a # as\<close> Cons by simp
      then have "radixOfPrefix b = None" using decimal_facts by blast
      then show ?thesis using Cons \<open>ds = a # as\<close> t s by (auto simp: BigInt_def Let_def)
    qed
  qed
qed

lemma BigInt_negative:
  assumes "ds \<noteq> []" "list_all (isDigitIn 10) ds"
  shows "BigInt (CHR ''-'' # ds) = Inr (- int (valueIn 10 ds))"
proof -
  have l: "isDigitIn 10 (last ds)"
    using assms by (simp add: list_all_iff)
  have w: "\<not> isWhiteSpace (CHR ''-'')" by (simp add: isWhiteSpace_def)
  have t: "trimString (CHR ''-'' # ds) = CHR ''-'' # ds"
    using assms(1) decimal_facts[OF l] w by (simp add: trimString_id)
  have s: "signedDecimal (CHR ''-'' # ds) (CHR ''-'' # ds) = Inr (- int (valueIn 10 ds))"
    using assms by (simp add: signedDecimal_def isNumeral_def)
  obtain b bs where ds: "ds = b # bs" using assms(1) by (cases ds) auto
  show ?thesis using t s unfolding ds by (simp add: BigInt_def Let_def)
qed

lemma BigInt_bigintToString: "BigInt (bigintToString i) = Inr i"
proof (cases "i < 0")
  case True
  then show ?thesis
    using BigInt_negative[of "digitsIn 10 (nat (- i))"] digitsIn_nonempty[of 10 "nat (- i)"]
      digitsIn_all[of 10 "nat (- i)"]
    by (simp add: bigintToString_def valueIn_digitsIn)
next
  case False
  then show ?thesis
    using BigInt_decimal[of "digitsIn 10 (nat i)"] digitsIn_nonempty[of 10 "nat i"]
      digitsIn_all[of 10 "nat i"]
    by (simp add: bigintToString_def valueIn_digitsIn)
qed

lemma lower_table:
  "\<forall>c\<in>set ''0123456789abcdef''. toLowerCaseChar c = c"
  by code_simp

lemma toLowerCaseChar_0x:
  "toLowerCaseChar (CHR ''0'') = CHR ''0''" "toLowerCaseChar (CHR ''x'') = CHR ''x''"
  by code_simp+

lemma toLowerCaseChar_lowerHex: "lowerHex c \<Longrightarrow> toLowerCaseChar c = c"
proof -
  assume "lowerHex c"
  then have "c \<in> set ''0123456789abcdef''" unfolding lowerHex_def .
  from bspec[OF lower_table this] show ?thesis .
qed

lemma toLowerCase_lowerHex: "list_all lowerHex ds \<Longrightarrow> toLowerCase ds = ds"
  by (induction ds) (simp_all add: toLowerCase_def toLowerCaseChar_lowerHex)

lemma lowerAddress_cases:
  assumes "lowerAddress a"
  obtains ds where "a = CHR ''0'' # CHR ''x'' # ds" "length ds = 40" "list_all lowerHex ds"
proof (cases a)
  case Nil
  then show ?thesis using assms by (simp add: lowerAddress_def)
next
  case (Cons x xs)
  show ?thesis
  proof (cases xs)
    case Nil
    then show ?thesis using assms Cons by (simp add: lowerAddress_def)
  next
    case (Cons y ds)
    then show ?thesis using assms \<open>a = x # xs\<close> that by (simp add: lowerAddress_def)
  qed
qed

lemma createAddress_lowerAddress:
  assumes "lowerAddress a"
  shows "createAddress a = Inr a"
proof -
  obtain ds where a: "a = CHR ''0'' # CHR ''x'' # ds" and l: "length ds = 40" and h: "list_all lowerHex ds"
    using assms by (rule lowerAddress_cases)
  have "list_all (isDigitIn 16) ds"
    using h lowerHex_facts unfolding list_all_iff by blast
  then have f: "isAddressFormat a" using l unfolding a by (simp add: isAddressFormat_def)
  have "toLowerCase a = a"
    unfolding a using toLowerCase_lowerHex[OF h] toLowerCaseChar_0x by (simp add: toLowerCase_def)
  then show ?thesis using f by (simp add: createAddress_def)
qed

lemma deserializeAmount_serializeAmount:
  "lowerAddress (token b) \<Longrightarrow> deserializeAmount (serializeAmount b) = Inr b"
  by (simp add: deserializeAmount_def serializeAmount_def BigInt_bigintToString
        createTokenAmount_def createAddress_lowerAddress)

lemma mapThrowing_serializeAmount:
  "list_all (\<lambda>b. lowerAddress (token b)) bs \<Longrightarrow>
   mapThrowing deserializeAmount (map serializeAmount bs) = Inr bs"
  by (induction bs) (simp_all add: deserializeAmount_serializeAmount)

lemma reload_wireFormat:
  assumes "wireFormat st"
  shows "deserializeChannelState (serializeChannelState st) = Inr st"
  using assms
  by (simp add: wireFormat_def deserializeChannelState_def serializeChannelState_def
        BigInt_bigintToString createAddress_lowerAddress mapThrowing_serializeAmount)

text \<open>
  Claim C9.  For every channel state whose participant addresses and token addresses
  are \<open>0x\<close>-prefixed 40-hex-digit lower-case strings, deserializing the serialized
  state succeeds and gives back the state itself: channel id, nonce, participants,
  every balance entry, timestamp and chain id.
\<close>

theorem deserialize_serialize:
  assumes "wireFormat st"
  shows "deserializeChannelState (serializeChannelState st) = Inr st"
  using assms by (rule reload_wireFormat)

lemma lowerAddress_S1:
  "lowerAddress traderS1" "lowerAddress lpS1" "lowerAddress usdc" "lowerAddress weth"
  by (simp_all add: lowerAddress_def lowerHex_def traderS1_def lpS1_def usdc_def weth_def)

lemma wireFormat_stateS1: "wireFormat stateS1"
  by (simp add: wireFormat_def stateS1_def lowerAddress_S1)

theorem deserialize_serialize_witness:
  "wireFormat stateS1 \<and> deserializeChannelState (serializeChannelState stateS1) = Inr stateS1"
  using deserialize_serialize [of stateS1] wireFormat_stateS1 by simp

section \<open>Single operations\<close>

lemma getChannelState_cached:
  "channelCache m cid = Some s \<Longrightarrow> getChannelState m cid = (Inr (Some s), m)"
  by (simp add: getChannelState_def)

lemma getChannelState_Inl: "getChannelState m cid = (Inl e, m1) \<Longrightarrow> m1 = m"
  by (auto simp: getChannelState_def split: option.splits sum.splits)

lemma getChannelState_None: "getChannelState m cid = (Inr None, m1) \<Longrightarrow> m1 = m"
  by (auto simp: getChannelState_def split: option.splits sum.splits)

lemma getChannelState_Some:
  assumes "getChannelState m cid = (Inr (Some s), m1)"
  shows "channelCache m1 cid = Some s" 
    and "redisLocks m1 = redisLocks m" and "dbChannels m1 = dbChannels m"
    and "dbCheckpoints m1 = dbCheckpoints m" and "dbMessages m1 = dbMessages m"
    and "dbQuotes m1 = dbQuotes m" and "metrics m1 = metrics m"
  using assms by (auto simp: getChannelState_def split: option.splits sum.splits)

lemma getChannelState_again:
  "getChannelState m cid = (Inr (Some s), m1) \<Longrightarrow> getChannelState m1 cid = (Inr (Some s), m1)"
  by (rule getChannelState_cached) (rule getChannelState_Some(1))

lemma getChannelState_countError:
  "getChannelState (countError m) cid =
     (fst (getChannelState m cid), countError (snd (getChannelState m cid)))"
  by (auto simp: getChannelState_def countError_def split: option.splits sum.splits)

lemma updateChannelState_accept:
  assumes "cid \<notin> redisLocks m" "getChannelState m cid = (Inr (Some cur), m1)"
    "validateStateTransition cur ns mt = Inr ()"
  shows "updateChannelState m cid ns mt = (Inr (), commitState m1 cid ns mt)"
  using assms by (simp add: updateChannelState_def)

lemma updateChannelState_Inr:
  assumes "updateChannelState m cid ns mt = (Inr u, m')"
  shows "\<exists>cur m1. cid \<notin> redisLocks m \<and> getChannelState m cid = (Inr (Some cur), m1) \<and>
           validateStateTransition cur ns mt = Inr () \<and> m' = commitState m1 cid ns mt"
  using assms
  by (auto simp: updateChannelState_def split: if_splits prod.splits sum.splits option.splits)

lemma validateStateTransition_Inr:
  "validateStateTransition cur ns mt = Inr u \<Longrightarrow>
     nonce cur < nonce ns \<and> channelId ns = channelId cur \<and> trader ns = trader cur \<and>
     lp ns = lp cur \<and> timestamp cur < timestamp ns"
  by (auto simp: validateStateTransition_def split: if_splits)

lemma commitState_cache: "channelCache (commitState m cid ns mt) cid = Some ns"
  by (simp add: commitState_def)

lemma updateChannelState_stale:
  assumes "cid \<notin> redisLocks m" "getChannelState m cid = (Inr (Some cur), m1)"
    "nonce ns \<le> nonce cur"
  shows "updateChannelState m cid ns mt =
           (Inl (ValidationError ''New nonce must be greater than current nonce''), countError m1)"
  using assms by (simp add: updateChannelState_def validateStateTransition_def)

section \<open>Agreement of the stores\<close>

lemma findOne_updateOne_same:
  "(\<And>d. P d \<Longrightarrow> P (f d)) \<Longrightarrow> findOne P (updateOne P f ds) = map_option f (findOne P ds)"
  by (induction ds) (auto simp: findOne_def)

lemma findOne_updateOne_other:
  "(\<And>d. P (f d) = P d) \<Longrightarrow>
   rel_option (\<lambda>d d'. d' = d \<or> d' = f d) (findOne P ds) (findOne P (updateOne Q f ds))"
  by (induction ds) (auto simp: findOne_def option.rel_refl)

lemma findOne_append_unused:
  "findOne P ds = None \<Longrightarrow> findOne P (ds @ [d]) = (if P d then Some d else None)"
  by (induction ds) (auto simp: findOne_def split: if_splits)

lemma deserialize_status [simp]:
  "deserializeChannelState (d\<lparr> status := x \<rparr>) = deserializeChannelState d"
  "deserializeChannelState (d\<lparr> status := x, checkpointNonce := y \<rparr>) = deserializeChannelState d"
  "deserializeChannelState (d\<lparr> status := x, finalState := z, finalNonce := y \<rparr>)
     = deserializeChannelState d"
  "deserializeChannelState (d\<lparr> status := x, timedOutAt := w \<rparr>) = deserializeChannelState d"
  by (simp_all add: deserializeChannelState_def cong: sum.case_cong)

lemma deserialize_setSerialized [simp]:
  "deserializeChannelState ((setSerialized (serializeChannelState ns) d)\<lparr> lastMessageType := x \<rparr>)
     = deserializeChannelState (serializeChannelState ns)"
  by (simp add: deserializeChannelState_def setSerialized_def serializeChannelState_def
        cong: sum.case_cong)

lemma deserialize_channelId:
  "deserializeChannelState r = Inr s \<Longrightarrow> channelId s = s_channelId r"
  by (auto simp: deserializeChannelState_def split: sum.splits)

lemma serialize_channelId [simp]: "s_channelId (serializeChannelState s) = channelId s"
  by (simp add: serializeChannelState_def)

lemma agree_getChannelState:
  assumes "agree R m cid" "stable R" "getChannelState m cid = (res, m1)"
  shows "agree R m1 cid \<and> (\<forall>s. res = Inr (Some s) \<longrightarrow> R (Inr s) \<and> channelId s = cid)"
proof (cases "channelCache m cid")
  case (Some s)
  then show ?thesis using assms by (auto simp: getChannelState_def agree_def)
next
  case None
  note c = None
  show ?thesis
  proof (cases "redisChannels m cid")
    case (Some r)
    then show ?thesis using assms c
      by (auto simp: getChannelState_def agree_def deserialize_channelId split: sum.splits)
  next
    case None
    note r = None
    show ?thesis
    proof (cases "findOne (hasChannelId cid) (dbChannels m)")
      case None
      then show ?thesis using assms c r by (auto simp: getChannelState_def agree_def)
    next
      case (Some d)
      then have id: "s_channelId d = cid"
        by (auto simp: findOne_def hasChannelId_def find_Some_iff)
      show ?thesis
      proof (cases "deserializeChannelState d")
        case (Inl e)
        then show ?thesis using assms c r Some by (auto simp: getChannelState_def agree_def)
      next
        case (Inr s)
        have "R (Inr s)" using assms(1) Some Inr by (simp add: agree_def)
        moreover have "channelId s = cid" using deserialize_channelId[OF Inr] id by simp
        moreover have "R (deserializeChannelState (serializeChannelState s))"
          using \<open>R (Inr s)\<close> assms(2) by (simp add: stable_def)
        ultimately show ?thesis using assms c r Some Inr
          by (auto simp: getChannelState_def agree_def)
      qed
    qed
  qed
qed

lemma agree_commitState:
  assumes "R (Inr ns)" "stable R" "channelId ns = cid"
    "findOne (hasChannelId cid) (dbChannels m) = None \<Longrightarrow> R (Inl (notFound cid))"
  shows "agree R (commitState m cid ns mt) cid"
proof -
  have r: "R (deserializeChannelState (serializeChannelState ns))"
    using assms(1,2) by (simp add: stable_def)
  have "findOne (hasChannelId cid)
          (updateOne (hasChannelId cid)
             (\<lambda>d. (setSerialized (serializeChannelState ns) d)\<lparr> lastMessageType := Some mt \<rparr>)
             (dbChannels m))
        = map_option (\<lambda>d. (setSerialized (serializeChannelState ns) d)\<lparr> lastMessageType := Some mt \<rparr>)
            (findOne (hasChannelId cid) (dbChannels m))"
    by (rule findOne_updateOne_same)
       (simp add: hasChannelId_def setSerialized_def assms(3))
  then show ?thesis using assms r
    by (auto simp: agree_def commitState_def split: option.splits)
qed

lemma agree_countError [simp]: "agree R (countError m) cid = agree R m cid"
  by (simp add: agree_def countError_def)

lemma agree_markCancelled [simp]: "agree R (markCancelled m q) cid = agree R m cid"
  by (simp add: agree_def markCancelled_def)

lemma agree_db_update:
  assumes "agree R m cid"
    and "channelCache m' cid = channelCache m cid \<or> channelCache m' cid = None"
    and "redisChannels m' cid = redisChannels m cid \<or> redisChannels m' cid = None"
    and "dbChannels m' = updateOne Q f (dbChannels m)"
    and "\<And>d. hasChannelId cid (f d) = hasChannelId cid d"
    and "\<And>d. deserializeChannelState (f d) = deserializeChannelState d"
  shows "agree R m' cid"
proof -
  have "rel_option (\<lambda>d d'. d' = d \<or> d' = f d) (findOne (hasChannelId cid) (dbChannels m))
          (findOne (hasChannelId cid) (updateOne Q f (dbChannels m)))"
    by (rule findOne_updateOne_other) (rule assms(5))
  then have db: "case findOne (hasChannelId cid) (dbChannels m') of
             None \<Rightarrow> R (Inl (notFound cid)) | Some d \<Rightarrow> R (deserializeChannelState d)"
    using assms(1,6) unfolding assms(4)
    by (cases "findOne (hasChannelId cid) (dbChannels m)";
        cases "findOne (hasChannelId cid) (updateOne Q f (dbChannels m))")
       (auto simp: agree_def)
  have c: "case channelCache m' cid of None \<Rightarrow> True | Some s \<Rightarrow> R (Inr s) \<and> channelId s = cid"
    using assms(1,2) by (auto simp: agree_def split: option.splits)
  have r: "case redisChannels m' cid of None \<Rightarrow> True
           | Some r \<Rightarrow> R (deserializeChannelState r) \<and> s_channelId r = cid"
    using assms(1,3) by (auto simp: agree_def split: option.splits)
  show ?thesis unfolding agree_def using c r db by simp
qed

lemma agree_recordCheckpoint:
  "agree R m cid \<Longrightarrow> agree R (recordCheckpoint k m c request) cid"
  by (rule agree_db_update[where f = "\<lambda>d. d\<lparr> status := CHECKPOINTING,
          checkpointNonce := Some (bigintToString (nonce (cp_state request))) \<rparr>"
        and Q = "hasChannelId c"])
     (simp_all add: recordCheckpoint_def hasChannelId_def)

lemma agree_markSettling:
  "agree R m cid \<Longrightarrow> agree R (markSettling m c finalSt) cid"
  by (rule agree_db_update[where f = "\<lambda>d. d\<lparr> status := SETTLING,
          finalState := Some (serializeChannelState finalSt),
          finalNonce := Some (bigintToString (nonce finalSt)) \<rparr>"
        and Q = "hasChannelId c"])
     (simp_all add: markSettling_def hasChannelId_def)

lemma agree_handleChannelTimeout:
  "agree R m cid \<Longrightarrow> agree R (handleChannelTimeout m c now) cid"
  by (rule agree_db_update[where f = "\<lambda>d. d\<lparr> status := TIMEOUT, timedOutAt := Some now \<rparr>"
        and Q = "hasChannelId c"])
     (simp_all add: handleChannelTimeout_def hasChannelId_def)

lemma agree_expire:
  "agree R m cid \<Longrightarrow>
   agree R (m\<lparr> dbChannels :=
              foldl (\<lambda>ds channel. updateOne (hasChannelId (s_channelId channel))
                                     (\<lambda>d. d\<lparr> status := EXPIRED \<rparr>) ds)
                (dbChannels m) cs \<rparr>) cid"
proof (induction cs arbitrary: m)
  case Nil
  then show ?case by simp
next
  case (Cons c cs)
  let ?m2 = "m\<lparr> dbChannels := updateOne (hasChannelId (s_channelId c))
                                 (\<lambda>d. d\<lparr> status := EXPIRED \<rparr>) (dbChannels m) \<rparr>"
  have "agree R ?m2 cid"
    by (rule agree_db_update[OF Cons.prems, where f = "\<lambda>d. d\<lparr> status := EXPIRED \<rparr>"
          and Q = "hasChannelId (s_channelId c)"])
       (simp_all add: hasChannelId_def)
  from Cons.IH[OF this] show ?case by simp
qed

lemma agree_cleanupExpiredChannels:
  "agree R m cid \<Longrightarrow> agree R (cleanupExpiredChannels m now) cid"
  unfolding cleanupExpiredChannels_def by (rule agree_expire)

lemma deserialize_extend [simp]:
  "deserializeChannelState (SerializedState.extend r ext) = deserializeChannelState r"
  by (simp add: deserializeChannelState_def SerializedState.defs cong: sum.case_cong)

lemma processQuoteRequest_attempt:
  "processQuoteRequest m r =
     attempt (validateQuoteRequest r) (qr_nonce r) (qr_timestamp r) ''QUOTE_REQUEST'' m
       (qr_channelId r)"
  by (simp add: processQuoteRequest_def attempt_def Let_def)

lemma processCancel_attempt:
  "processCancel m c =
     (case attempt (validateCancel c) (cancel_nonce c) (cancel_timestamp c) ''CANCEL'' m
             (cancel_channelId c) of
        (Inl e, m2) \<Rightarrow> (Inl e, m2)
      | (Inr u, m2) \<Rightarrow> (Inr (), markCancelled m2 (cancel_quoteId c)))"
  by (auto simp: processCancel_def attempt_def Let_def split: prod.splits sum.splits option.splits)

lemma attempt_found:
  assumes "getChannelState m cid = (Inr (Some cur), m1)"
  shows "attempt v n t mt m cid =
     (case v cur of
        Inl e \<Rightarrow> (Inl e, m1)
      | Inr u \<Rightarrow>
          if cid \<in> redisLocks m then (Inl (lockFailed cid), m1)
          else (case validateStateTransition cur (cur\<lparr> nonce := n, timestamp := t \<rparr>) mt of
                  Inl e \<Rightarrow> (Inl e, countError m1)
                | Inr u \<Rightarrow> (Inr (), commitState m1 cid (cur\<lparr> nonce := n, timestamp := t \<rparr>) mt)))"
  using assms getChannelState_again[OF assms] getChannelState_Some(2)[OF assms]
  by (simp add: attempt_def updateChannelState_def split: sum.splits)

lemma attempt_not_found:
  "getChannelState m cid = (Inr None, m1) \<Longrightarrow> attempt v n t mt m cid = (Inl (notFound cid), m)"
  "getChannelState m cid = (Inl e, m1) \<Longrightarrow> attempt v n t mt m cid = (Inl e, m)"
  using getChannelState_None[of m cid m1] getChannelState_Inl[of m cid e m1]
  by (auto simp: attempt_def)

lemma processFill_attempt:
  "processFill m f =
     (case attempt (validateFill f) (fill_nonce f) (fill_timestamp f) ''FILL'' m
             (fill_channelId f) of
        (Inl e, m2) \<Rightarrow> (Inl e, m2)
      | (Inr u, m2) \<Rightarrow>
          (case channelCache m2 (fill_channelId f) of
             Some newState \<Rightarrow> (Inr newState, m2)
           | None \<Rightarrow> (Inl (notFound (fill_channelId f)), m2)))"
proof -
  obtain r1 m1 where g: "getChannelState m (fill_channelId f) = (r1, m1)"
    by (cases "getChannelState m (fill_channelId f)")
  have u: "\<And>ns mt res m2. updateChannelState m1 (fill_channelId f) ns mt = (Inr res, m2)
            \<Longrightarrow> channelCache m2 (fill_channelId f) = Some ns"
    using updateChannelState_Inr commitState_cache by blast
  show ?thesis
  proof (cases r1)
    case (Inl e)
    then show ?thesis using g by (simp add: processFill_def attempt_def)
  next
    case (Inr o1)
    show ?thesis
    proof (cases o1)
      case None
      then show ?thesis using g Inr by (simp add: processFill_def attempt_def)
    next
      case (Some cur)
      show ?thesis
      proof (cases "validateFill f cur")
        case (Inl e)
        then show ?thesis using g Inr Some by (simp add: processFill_def attempt_def)
      next
        case v: (Inr x)
        obtain r2 m2 where up: "updateChannelState m1 (fill_channelId f)
            (cur\<lparr> nonce := fill_nonce f, timestamp := fill_timestamp f \<rparr>) ''FILL'' = (r2, m2)"
          by (cases "updateChannelState m1 (fill_channelId f)
            (cur\<lparr> nonce := fill_nonce f, timestamp := fill_timestamp f \<rparr>) ''FILL''")
        show ?thesis
        proof (cases r2)
          case (Inl e)
          then show ?thesis using g Inr Some v up
            by (simp add: processFill_def attempt_def calculatePostFillState_def)
        next
          case r: (Inr y)
          from u[OF up[unfolded r]] show ?thesis using g Inr Some v up r
            by (simp add: processFill_def attempt_def calculatePostFillState_def)
        qed
      qed
    qed
  qed
qed

lemma agree_processHeartbeat:
  assumes "agree R m cid" "stable R" "hb_channelId h = cid"
  shows "agree R (snd (processHeartbeat m h)) cid"
proof -
  obtain r1 m1 where g: "getChannelState m cid = (r1, m1)" by (cases "getChannelState m cid")
  from agree_getChannelState[OF assms(1,2) g] have "agree R m1 cid" by simp
  then show ?thesis using g assms(3)
    by (auto simp: processHeartbeat_def Let_def split: sum.splits option.splits)
qed

lemma agree_createCheckpoint:
  assumes "agree R m cid" "stable R" "cp_channelId req = cid"
  shows "agree R (snd (createCheckpoint k m req)) cid"
proof -
  obtain r1 m1 where g: "getChannelState m cid = (r1, m1)" by (cases "getChannelState m cid")
  from agree_getChannelState[OF assms(1,2) g] have "agree R m1 cid" by simp
  then show ?thesis using g assms(3)
    by (auto simp: createCheckpoint_def Let_def agree_recordCheckpoint
             split: sum.splits option.splits)
qed

lemma agree_closeChannel:
  assumes "agree R m cid" "stable R"
  shows "agree R (snd (closeChannel m cid finalSt)) cid"
proof -
  obtain r1 m1 where g: "getChannelState m cid = (r1, m1)" by (cases "getChannelState m cid")
  from agree_getChannelState[OF assms(1,2) g] have "agree R m1 cid" by simp
  then show ?thesis using g
    by (auto simp: closeChannel_def agree_markSettling split: sum.splits option.splits)
qed

lemma createChannel_Inr:
  assumes "createChannel m0 cid now params = (Inr (c, init), m1)"
  shows "c = cid" "channelId init = cid" "nonce init = 0" "channelCache m1 cid = Some init"
    "trader init = p_trader params" "lp init = p_lp params"
    "createTokenAmount (p_tokenIn params) (p_traderDeposit params) = Inr ta \<Longrightarrow>
       traderBalances init = [ta]"
    "createTokenAmount (p_tokenOut params) (p_lpDeposit params) = Inr la \<Longrightarrow>
       lpBalances init = [la]"
    "redisChannels m1 cid = Some (serializeChannelState init)"
    "\<exists>ext. dbChannels m1 = dbChannels m0 @ [SerializedState.extend (serializeChannelState init) ext]"
  using assms
  by (auto simp: createChannel_def createChannelFailed_def Let_def split: sum.splits)

lemma agree_createChannel:
  assumes "unusedId m0 cid" "createChannel m0 cid now params = (Inr (c, init), m1)"
    "stable R" "R (Inr init)"
  shows "agree R m1 cid"
proof -
  note f = createChannel_Inr[OF assms(2)]
  obtain ext where db: "dbChannels m1 = dbChannels m0 @ [SerializedState.extend (serializeChannelState init) ext]"
    using f(10) by blast
  have r: "R (deserializeChannelState (serializeChannelState init))"
    using assms(3,4) by (simp add: stable_def)
  have "findOne (hasChannelId cid) (dbChannels m1)
          = Some (SerializedState.extend (serializeChannelState init) ext)"
    unfolding db using assms(1) f(2)
    by (simp add: findOne_append_unused unusedId_def hasChannelId_def SerializedState.defs
          serializeChannelState_def)
  then show ?thesis using f(2,4,9) r assms(4) by (simp add: agree_def)
qed

lemma update_cases:
  assumes "agree R m cid" "stable R" "updateChannelState m cid ns mt = (res, m')"
  obtains (rejected) e where "res = Inl e" "agree R m' cid"
  | (accepted) cur where "res = Inr ()" "R (Inr cur)" "channelId cur = cid"
      "validateStateTransition cur ns mt = Inr ()"
      "channelCache m' cid = Some ns"
      "\<And>R'. stable R' \<Longrightarrow> R' (Inr ns) \<Longrightarrow>
         (R (Inl (notFound cid)) \<Longrightarrow> R' (Inl (notFound cid))) \<Longrightarrow> agree R' m' cid"
proof (cases "cid \<in> redisLocks m")
  case True
  then have "res = Inl (lockFailed cid)" "m' = m"
    using assms(3) by (simp_all add: updateChannelState_def)
  then show ?thesis using rejected assms(1) by simp
next
  case False
  obtain r1 m1 where g: "getChannelState m cid = (r1, m1)" by (cases "getChannelState m cid")
  from agree_getChannelState[OF assms(1,2) g]
  have a1: "agree R m1 cid" and q: "\<And>s. r1 = Inr (Some s) \<Longrightarrow> R (Inr s) \<and> channelId s = cid"
    by auto
  show ?thesis
  proof (cases r1)
    case (Inl e)
    then have "res = Inl e" "m' = countError m1"
      using assms(3) False g by (simp_all add: updateChannelState_def)
    then show ?thesis using rejected a1 by simp
  next
    case (Inr o1)
    show ?thesis
    proof (cases o1)
      case None
      then have "res = Inl (notFound cid)" "m' = countError m1"
        using assms(3) False g Inr by (simp_all add: updateChannelState_def)
      then show ?thesis using rejected a1 by simp
    next
      case (Some cur)
      note cur = q[OF Inr[unfolded Some]]
      show ?thesis
      proof (cases "validateStateTransition cur ns mt")
        case (Inl e)
        then have "res = Inl e" "m' = countError m1"
          using assms(3) False g Inr Some by (simp_all add: updateChannelState_def)
        then show ?thesis using rejected a1 by simp
      next
        case v: (Inr u)
        then have id: "channelId ns = cid"
          using validateStateTransition_Inr[OF v] cur by simp
        have m': "m' = commitState m1 cid ns mt" and res: "res = Inr ()"
          using assms(3) False g Inr Some v by (simp_all add: updateChannelState_def)
        have nf: "findOne (hasChannelId cid) (dbChannels m1) = None \<Longrightarrow> R (Inl (notFound cid))"
          using a1 by (simp add: agree_def)
        have sw: "agree R' m' cid"
          if "stable R'" "R' (Inr ns)" "R (Inl (notFound cid)) \<Longrightarrow> R' (Inl (notFound cid))" for R'
          unfolding m' using that nf by (intro agree_commitState[OF _ _ id]) auto
        have c: "channelCache m' cid = Some ns" unfolding m' by (rule commitState_cache)
        have v': "validateStateTransition cur ns mt = Inr ()" using v by simp
        show ?thesis
          by (rule accepted[OF res conjunct1[OF cur] conjunct2[OF cur] v' c]) (rule sw)
      qed
    qed
  qed
qed

lemma attempt_cases:
  assumes "agree R m cid" "stable R" "attempt v n t mt m cid = (res, m')"
  obtains (rejected) e where "res = Inl e" "agree R m' cid"
  | (accepted) cur where "res = Inr ()" "R (Inr cur)" "channelId cur = cid" "v cur = Inr ()"
      "validateStateTransition cur (cur\<lparr> nonce := n, timestamp := t \<rparr>) mt = Inr ()"
      "channelCache m' cid = Some (cur\<lparr> nonce := n, timestamp := t \<rparr>)"
      "\<And>R'. stable R' \<Longrightarrow> R' (Inr (cur\<lparr> nonce := n, timestamp := t \<rparr>)) \<Longrightarrow>
         (R (Inl (notFound cid)) \<Longrightarrow> R' (Inl (notFound cid))) \<Longrightarrow> agree R' m' cid"
proof -
  obtain r1 m1 where g: "getChannelState m cid = (r1, m1)" by (cases "getChannelState m cid")
  from agree_getChannelState[OF assms(1,2) g]
  have a1: "agree R m1 cid" and q: "\<And>s. r1 = Inr (Some s) \<Longrightarrow> R (Inr s) \<and> channelId s = cid"
    by auto
  show ?thesis
  proof (cases r1)
    case (Inl e)
    then have "res = Inl e" "m' = m1" using assms(3) g by (simp_all add: attempt_def)
    then show ?thesis using rejected a1 by simp
  next
    case (Inr o1)
    show ?thesis
    proof (cases o1)
      case None
      then have "res = Inl (notFound cid)" "m' = m1"
        using assms(3) g Inr by (simp_all add: attempt_def)
      then show ?thesis using rejected a1 by simp
    next
      case (Some cur)
      note cur = q[OF Inr[unfolded Some]]
      note g' = g[unfolded Inr Some]
      show ?thesis
      proof (cases "v cur")
        case (Inl e)
        then have "res = Inl e" "m' = m1" using assms(3) g' by (simp_all add: attempt_def)
        then show ?thesis using rejected a1 by simp
      next
        case vc: (Inr u)
        have u: "updateChannelState m1 cid (cur\<lparr> nonce := n, timestamp := t \<rparr>) mt = (res, m')"
          using assms(3) g' vc by (simp add: attempt_def)
        from a1 assms(2) u show ?thesis
        proof (cases rule: update_cases)
          case (rejected e)
          then show ?thesis using that(1) by simp
        next
          case (accepted cur')
          obtain cur2 m2 where g2: "getChannelState m1 cid = (Inr (Some cur2), m2)"
            and v2: "validateStateTransition cur2 (cur\<lparr> nonce := n, timestamp := t \<rparr>) mt = Inr ()"
            using updateChannelState_Inr[OF u[unfolded accepted(1)]] by blast
          have "cur2 = cur" using g2 getChannelState_again[OF g'] by simp
          then have v3: "validateStateTransition cur (cur\<lparr> nonce := n, timestamp := t \<rparr>) mt = Inr ()"
            using v2 by simp
          have vc': "v cur = Inr ()" using vc by simp
          show ?thesis
            by (rule that(2)[OF accepted(1) conjunct1[OF cur] conjunct2[OF cur] vc' v3 accepted(5)])
               (rule accepted(6))
        qed
      qed
    qed
  qed
qed

lemma perform_cases:
  assumes "agree R m cid" "stable R" "onChannel cid op" "perform k m op = (acc, m')"
  obtains (unchanged) "acc = None" "agree R m' cid"
  | (advanced) ns cur mt where "acc = Some ns" "R (Inr cur)" "channelId cur = cid"
      "validateStateTransition cur ns mt = Inr ()"
      "isMessage op \<Longrightarrow> \<exists>n t. ns = cur\<lparr> nonce := n, timestamp := t \<rparr>"
      "channelCache m' cid = Some ns"
      "\<And>R'. stable R' \<Longrightarrow> R' (Inr ns) \<Longrightarrow>
         (R (Inl (notFound cid)) \<Longrightarrow> R' (Inl (notFound cid))) \<Longrightarrow> agree R' m' cid"
proof (cases op)
  case (SubmitState c ns mt)
  then have c: "c = cid" using assms(3) by (simp add: onChannel_def)
  obtain res m2 where u: "updateChannelState m cid ns mt = (res, m2)"
    by (cases "updateChannelState m cid ns mt")
  from assms(1,2) u show ?thesis
  proof (cases rule: update_cases)
    case (rejected e)
    then have "acc = None" "m' = m2" using assms(4) u unfolding SubmitState c by simp_all
    then show ?thesis using unchanged rejected(2) by simp
  next
    case (accepted cur)
    have e: "acc = Some ns" "m' = m2" using assms(4) u accepted(1) unfolding SubmitState c by simp_all
    show ?thesis
      by (rule advanced[OF e(1) accepted(2,3,4)])
         (simp_all add: SubmitState e(2) accepted(5,6))
  qed
next
  case (SubmitQuoteRequest r)
  then have c: "qr_channelId r = cid" using assms(3) by (simp add: onChannel_def)
  obtain res m2 where u: "attempt (validateQuoteRequest r) (qr_nonce r) (qr_timestamp r)
       ''QUOTE_REQUEST'' m cid = (res, m2)"
    by (cases "attempt (validateQuoteRequest r) (qr_nonce r) (qr_timestamp r)
       ''QUOTE_REQUEST'' m cid")
  from assms(1,2) u show ?thesis
  proof (cases rule: attempt_cases)
    case (rejected e)
    then have "acc = None" "m' = m2" using assms(4) u unfolding SubmitQuoteRequest
      by (simp_all add: processQuoteRequest_attempt c)
    then show ?thesis using unchanged rejected(2) by simp
  next
    case (accepted cur)
    let ?ns = "cur\<lparr> nonce := qr_nonce r, timestamp := qr_timestamp r \<rparr>"
    have e: "acc = Some ?ns" "m' = m2" using assms(4) u accepted(1,6) unfolding SubmitQuoteRequest
      by (simp_all add: processQuoteRequest_attempt c)
    show ?thesis
      by (rule advanced[OF e(1) accepted(2,3,5)])
         (auto simp: e(2) accepted(6,7))
  qed
next
  case (SubmitFill f)
  then have c: "fill_channelId f = cid" using assms(3) by (simp add: onChannel_def)
  obtain res m2 where u: "attempt (validateFill f) (fill_nonce f) (fill_timestamp f)
       ''FILL'' m cid = (res, m2)"
    by (cases "attempt (validateFill f) (fill_nonce f) (fill_timestamp f) ''FILL'' m cid")
  from assms(1,2) u show ?thesis
  proof (cases rule: attempt_cases)
    case (rejected e)
    then have "acc = None" "m' = m2" using assms(4) u unfolding SubmitFill
      by (simp_all add: processFill_attempt c)
    then show ?thesis using unchanged rejected(2) by simp
  next
    case (accepted cur)
    let ?ns = "cur\<lparr> nonce := fill_nonce f, timestamp := fill_timestamp f \<rparr>"
    have e: "acc = Some ?ns" "m' = m2" using assms(4) u accepted(1,6) unfolding SubmitFill
      by (simp_all add: processFill_attempt c)
    show ?thesis
      by (rule advanced[OF e(1) accepted(2,3,5)])
         (auto simp: e(2) accepted(6,7))
  qed
next
  case (SubmitCancel x)
  then have c: "cancel_channelId x = cid" using assms(3) by (simp add: onChannel_def)
  obtain res m2 where u: "attempt (validateCancel x) (cancel_nonce x) (cancel_timestamp x)
       ''CANCEL'' m cid = (res, m2)"
    by (cases "attempt (validateCancel x) (cancel_nonce x) (cancel_timestamp x) ''CANCEL'' m cid")
  have mc: "channelCache (markCancelled m2 (cancel_quoteId x)) = channelCache m2"
    by (simp add: markCancelled_def)
  from assms(1,2) u show ?thesis
  proof (cases rule: attempt_cases)
    case (rejected e)
    then have "acc = None" "m' = m2" using assms(4) u unfolding SubmitCancel
      by (simp_all add: processCancel_attempt c)
    then show ?thesis using unchanged rejected(2) by simp
  next
    case (accepted cur)
    let ?ns = "cur\<lparr> nonce := cancel_nonce x, timestamp := cancel_timestamp x \<rparr>"
    have e: "acc = Some ?ns" "m' = markCancelled m2 (cancel_quoteId x)"
      using assms(4) u accepted(1,6) unfolding SubmitCancel
      by (simp_all add: processCancel_attempt c mc)
    show ?thesis
      by (rule advanced[OF e(1) accepted(2,3,5)])
         (auto simp: e(2) mc accepted(6,7))
  qed
next
  case (SubmitHeartbeat h)
  then have c: "hb_channelId h = cid" using assms(3) by (simp add: onChannel_def)
  have "acc = None" "m' = snd (processHeartbeat m h)"
    using assms(4) unfolding SubmitHeartbeat by auto
  then show ?thesis using unchanged agree_processHeartbeat[OF assms(1,2) c] by simp
next
  case (SubmitCheckpoint req)
  then have c: "cp_channelId req = cid" using assms(3) by (simp add: onChannel_def)
  have "acc = None" "m' = snd (createCheckpoint k m req)"
    using assms(4) unfolding SubmitCheckpoint by auto
  then show ?thesis using unchanged agree_createCheckpoint[OF assms(1,2) c] by simp
next
  case (Close c st)
  then have c: "c = cid" using assms(3) by (simp add: onChannel_def)
  have "acc = None" "m' = snd (closeChannel m cid st)"
    using assms(4) unfolding Close c by auto
  then show ?thesis using unchanged agree_closeChannel[OF assms(1,2)] by simp
next
  case (FireTimeout c now)
  have "acc = None" "m' = handleChannelTimeout m c now"
    using assms(4) unfolding FireTimeout by auto
  then show ?thesis using unchanged agree_handleChannelTimeout[OF assms(1)] by simp
next
  case (Cleanup now)
  have "acc = None" "m' = cleanupExpiredChannels m now"
    using assms(4) unfolding Cleanup by auto
  then show ?thesis using unchanged agree_cleanupExpiredChannels[OF assms(1)] by simp
qed

lemma deserialize_nonce:
  "deserializeChannelState (serializeChannelState s) = Inr s' \<Longrightarrow> nonce s' = nonce s"
  by (auto simp: deserializeChannelState_def serializeChannelState_def BigInt_bigintToString
           split: sum.splits)

lemma stable_nonceIs: "stable (nonceIs n)"
  by (auto simp: stable_def nonceIs_def deserialize_nonce split: sum.splits)

lemma nonceIs_notFound [simp]: "nonceIs n (Inl e)"
  by (simp add: nonceIs_def)

lemma sorted_nonces:
  assumes "agree (nonceIs n) m cid" "\<forall>op\<in>set ops. onChannel cid op"
  shows "sorted_wrt (<) (n # map nonce (accepted k m ops))"
  using assms
proof (induction ops arbitrary: m n)
  case Nil
  then show ?case by simp
next
  case (Cons op ops)
  obtain acc m' where p: "perform k m op = (acc, m')" by (cases "perform k m op")
  have on: "onChannel cid op" and rest: "\<forall>op\<in>set ops. onChannel cid op"
    using Cons.prems(2) by simp_all
  from Cons.prems(1) stable_nonceIs on p show ?case
  proof (cases rule: perform_cases)
    case unchanged
    then show ?thesis using Cons.IH[OF unchanged(2) rest] p by simp
  next
    case (advanced ns cur mt)
    have "nonce cur = n" using advanced(2) by (simp add: nonceIs_def)
    then have lt: "n < nonce ns" using validateStateTransition_Inr[OF advanced(4)] by simp
    have "agree (nonceIs (nonce ns)) m' cid"
      by (rule advanced(7)) (simp_all add: stable_nonceIs nonceIs_def)
    from Cons.IH[OF this rest] have "sorted_wrt (<) (nonce ns # map nonce (accepted k m' ops))" .
    then show ?thesis using lt p advanced(1) by auto
  qed
qed

section \<open>Scenario S1, evaluated\<close>

lemma commitState_locks [simp]: "redisLocks (commitState m cid ns mt) = redisLocks m"
  by (simp add: commitState_def)

lemma attempt_cached:
  assumes "channelCache m cid = Some cur" "cid \<notin> redisLocks m" "v cur = Inr ()"
    "validateStateTransition cur (cur\<lparr> nonce := n, timestamp := t \<rparr>) mt = Inr ()"
  shows "attempt v n t mt m cid = (Inr (), commitState m cid (cur\<lparr> nonce := n, timestamp := t \<rparr>) mt)"
  using assms by (simp add: attempt_found[OF getChannelState_cached])

lemma createTokenAmount_S1:
  "createTokenAmount usdc a = Inr \<lparr> token = usdc, amount = a \<rparr>"
  "createTokenAmount weth a = Inr \<lparr> token = weth, amount = a \<rparr>"
  by (simp_all add: createTokenAmount_def createAddress_lowerAddress lowerAddress_S1)

lemma createChannel_S1:
  "createChannel emptyManager ''ch01'' 1000 paramsS1 = (Inr (''ch01'', stateS1), openedS1)"
  by (simp add: openedS1_def createChannel_def validateChannelParams_def paramsS1_def
        createTokenAmount_S1 CHANNEL_TIMEOUT_MS_def stateS1_def traderS1_def lpS1_def Let_def)

lemma openedS1:
  "channelCache openedS1 ''ch01'' = Some stateS1" "redisLocks openedS1 = {}"
  using createChannel_Inr(4)[OF createChannel_S1]
  by (simp_all add: openedS1_def createChannel_def validateChannelParams_def paramsS1_def
        createTokenAmount_S1 CHANNEL_TIMEOUT_MS_def traderS1_def lpS1_def Let_def emptyManager_def)

lemma validate_S1:
  "validateQuoteRequest quoteRequestS1 stateS1 = Inr ()"
  "validateStateTransition stateS1 state1S1 mt = Inr ()"
  "validateFill fillS1 state1S1 = Inr ()"
  "validateStateTransition state1S1 state2S1 mt = Inr ()"
  by (simp_all add: validateQuoteRequest_def validateStateTransition_def validateFill_def
        quoteRequestS1_def fillS1_def stateS1_def state1S1_def state2S1_def MAX_SLIPPAGE_BPS_def)

lemma processQuoteRequest_S1:
  "processQuoteRequest openedS1 quoteRequestS1 =
     (Inr (), commitState openedS1 ''ch01'' state1S1 ''QUOTE_REQUEST'')"
proof -
  have "attempt (validateQuoteRequest quoteRequestS1) 1 2000 ''QUOTE_REQUEST'' openedS1 ''ch01''
      = (Inr (), commitState openedS1 ''ch01'' (stateS1\<lparr> nonce := 1, timestamp := 2000 \<rparr>)
                   ''QUOTE_REQUEST'')"
    by (rule attempt_cached[OF openedS1(1)])
       (simp_all add: openedS1(2) validate_S1 validate_S1(2)[unfolded state1S1_def])
  then show ?thesis
    by (simp add: processQuoteRequest_attempt quoteRequestS1_def state1S1_def)
qed

lemma requestedS1:
  "requestedS1 = commitState openedS1 ''ch01'' state1S1 ''QUOTE_REQUEST''"
  "channelCache requestedS1 ''ch01'' = Some state1S1" "redisLocks requestedS1 = {}"
  by (simp_all add: requestedS1_def processQuoteRequest_S1 commitState_cache openedS1(2))

lemma state2S1_alt: "state2S1 = state1S1\<lparr> nonce := 2, timestamp := 3000 \<rparr>"
  by (simp add: state1S1_def state2S1_def)

lemma processFill_S1:
  "processFill requestedS1 fillS1 =
     (Inr state2S1, commitState requestedS1 ''ch01'' state2S1 ''FILL'')"
proof -
  have "attempt (validateFill fillS1) 2 3000 ''FILL'' requestedS1 ''ch01''
      = (Inr (), commitState requestedS1 ''ch01'' (state1S1\<lparr> nonce := 2, timestamp := 3000 \<rparr>) ''FILL'')"
    by (rule attempt_cached[OF requestedS1(2)])
       (simp_all add: requestedS1(3) validate_S1 validate_S1(4)[unfolded state2S1_alt])
  then show ?thesis
    by (simp add: processFill_attempt fillS1_def state2S1_alt commitState_cache)
qed

lemma filledS1:
  "filledS1 = commitState requestedS1 ''ch01'' state2S1 ''FILL''"
  "channelCache filledS1 ''ch01'' = Some state2S1" "redisLocks filledS1 = {}"
  by (simp_all add: filledS1_def processFill_S1 commitState_cache requestedS1(3))

lemma accepted_S1:
  "accepted k openedS1 [SubmitQuoteRequest quoteRequestS1, SubmitFill fillS1] = [state1S1, state2S1]"
  using processQuoteRequest_S1 processFill_S1
  by (simp add: requestedS1(1)[symmetric] requestedS1(2) quoteRequestS1_def)

section \<open>Nonces\<close>

lemma nonceIs_Inr [simp]: "nonceIs n (Inr s) = (nonce s = n)"
  by (simp add: nonceIs_def)

text \<open>
  Claim C2.  Every state transition that \<open>updateChannelState\<close> accepts carries a nonce
  strictly greater than the current nonce of the channel, and becomes the current state;
  every submission whose nonce is less than or equal to the current nonce is rejected
  and leaves the current state as it was; so the states accepted on a channel after its
  creation, by direct submissions, quote requests, fills and cancels, interleaved with
  any heartbeats, checkpoints, closes, timeouts and clean-ups of that channel, have
  strictly increasing nonces.
\<close>

theorem nonce_monotonicity:
  "(updateChannelState m cid ns mt = (Inr u, m') \<longrightarrow>
      (\<exists>cur m1. getChannelState m cid = (Inr (Some cur), m1) \<and> nonce cur < nonce ns \<and>
         getChannelState m' cid = (Inr (Some ns), m')))
   \<and> (getChannelState m cid = (Inr (Some cur), m1) \<and> nonce ns \<le> nonce cur \<longrightarrow>
      (\<exists>e. fst (updateChannelState m cid ns mt) = Inl e) \<and>
      fst (getChannelState (snd (updateChannelState m cid ns mt)) cid) = Inr (Some cur))
   \<and> (unusedId m0 cid \<and> createChannel m0 cid now params = (Inr (c, init0), m2) \<and>
       (\<forall>op\<in>set ops. onChannel cid op) \<longrightarrow>
      sorted_wrt (<) (map nonce (init0 # accepted k m2 ops)))"
proof (intro conjI impI)
  assume a: "updateChannelState m cid ns mt = (Inr u, m')"
  then obtain cur m1 where g: "getChannelState m cid = (Inr (Some cur), m1)"
    and v: "validateStateTransition cur ns mt = Inr ()" and m': "m' = commitState m1 cid ns mt"
    using updateChannelState_Inr by blast
  have "nonce cur < nonce ns" using validateStateTransition_Inr[OF v] by simp
  moreover have "getChannelState m' cid = (Inr (Some ns), m')"
    unfolding m' by (rule getChannelState_cached) (rule commitState_cache)
  ultimately show "\<exists>cur m1. getChannelState m cid = (Inr (Some cur), m1) \<and> nonce cur < nonce ns \<and>
         getChannelState m' cid = (Inr (Some ns), m')"
    using g by blast
next
  assume a: "getChannelState m cid = (Inr (Some cur), m1) \<and> nonce ns \<le> nonce cur"
  then have g: "getChannelState m cid = (Inr (Some cur), m1)" and n: "nonce ns \<le> nonce cur"
    by simp_all
  have g1: "getChannelState m1 cid = (Inr (Some cur), m1)" by (rule getChannelState_again[OF g])
  show "\<exists>e. fst (updateChannelState m cid ns mt) = Inl e"
    using g n by (simp add: updateChannelState_def validateStateTransition_def)
  show "fst (getChannelState (snd (updateChannelState m cid ns mt)) cid) = Inr (Some cur)"
  proof (cases "cid \<in> redisLocks m")
    case True
    then show ?thesis using g by (simp add: updateChannelState_def)
  next
    case False
    then show ?thesis using g n g1
      by (simp add: updateChannelState_def validateStateTransition_def getChannelState_countError)
  qed
next
  assume a: "unusedId m0 cid \<and> createChannel m0 cid now params = (Inr (c, init0), m2) \<and>
       (\<forall>op\<in>set ops. onChannel cid op)"
  then have u: "unusedId m0 cid" and cr: "createChannel m0 cid now params = (Inr (c, init0), m2)"
    and on: "\<forall>op\<in>set ops. onChannel cid op"
    by simp_all
  have "agree (nonceIs (nonce init0)) m2 cid"
    by (rule agree_createChannel[OF u cr stable_nonceIs]) simp
  from sorted_nonces[OF this on] show "sorted_wrt (<) (map nonce (init0 # accepted k m2 ops))"
    by simp
qed

theorem nonce_monotonicity_witness:
  "updateChannelState openedS1 ''ch01'' state1S1 ''QUOTE_REQUEST''
     = (Inr (), commitState openedS1 ''ch01'' state1S1 ''QUOTE_REQUEST'')
   \<and> (\<exists>cur m1. getChannelState openedS1 ''ch01'' = (Inr (Some cur), m1) \<and> nonce cur < nonce state1S1)
   \<and> getChannelState requestedS1 ''ch01'' = (Inr (Some state1S1), requestedS1)
   \<and> nonce state1S1 \<le> nonce state1S1
   \<and> (\<exists>e. fst (updateChannelState requestedS1 ''ch01'' state1S1 ''QUOTE_REQUEST'') = Inl e)
   \<and> fst (getChannelState (snd (updateChannelState requestedS1 ''ch01'' state1S1 ''QUOTE_REQUEST''))
          ''ch01'') = Inr (Some state1S1)
   \<and> unusedId emptyManager ''ch01''
   \<and> createChannel emptyManager ''ch01'' 1000 paramsS1 = (Inr (''ch01'', stateS1), openedS1)
   \<and> sorted_wrt (<)
       (map nonce (stateS1 #
          accepted (\<lambda>s. []) openedS1 [SubmitQuoteRequest quoteRequestS1, SubmitFill fillS1]))
   \<and> accepted (\<lambda>s. []) openedS1 [SubmitQuoteRequest quoteRequestS1, SubmitFill fillS1]
       = [state1S1, state2S1]"
proof -
  have up: "updateChannelState openedS1 ''ch01'' state1S1 ''QUOTE_REQUEST''
     = (Inr (), commitState openedS1 ''ch01'' state1S1 ''QUOTE_REQUEST'')"
    by (rule updateChannelState_accept[OF _ getChannelState_cached[OF openedS1(1)]])
       (simp_all add: openedS1(2) validate_S1)
  have g: "getChannelState requestedS1 ''ch01'' = (Inr (Some state1S1), requestedS1)"
    by (rule getChannelState_cached[OF requestedS1(2)])
  have un: "unusedId emptyManager ''ch01''"
    by (simp add: unusedId_def emptyManager_def findOne_def)
  have on: "\<forall>op\<in>set [SubmitQuoteRequest quoteRequestS1, SubmitFill fillS1]. onChannel ''ch01'' op"
    by (simp add: onChannel_def quoteRequestS1_def fillS1_def)
  note t1 = nonce_monotonicity[where m = openedS1 and cid = "''ch01''" and ns = state1S1
      and mt = "''QUOTE_REQUEST''" and u = "()"
      and m' = "commitState openedS1 ''ch01'' state1S1 ''QUOTE_REQUEST''"]
  note t2 = nonce_monotonicity[where m = requestedS1 and cid = "''ch01''" and ns = state1S1
      and mt = "''QUOTE_REQUEST''" and cur = state1S1 and ?m1.0 = requestedS1]
  note t3 = nonce_monotonicity[where ?m0.0 = emptyManager and cid = "''ch01''" and now = 1000
      and params = paramsS1 and c = "''ch01''" and ?init0.0 = stateS1 and ?m2.0 = openedS1
      and ops = "[SubmitQuoteRequest quoteRequestS1, SubmitFill fillS1]" and k = "\<lambda>s. []"]
  have c1: "\<exists>cur m1. getChannelState openedS1 ''ch01'' = (Inr (Some cur), m1) \<and> nonce cur < nonce state1S1"
    using t1 up by blast
  have c2: "(\<exists>e. fst (updateChannelState requestedS1 ''ch01'' state1S1 ''QUOTE_REQUEST'') = Inl e)
      \<and> fst (getChannelState (snd (updateChannelState requestedS1 ''ch01'' state1S1 ''QUOTE_REQUEST''))
          ''ch01'') = Inr (Some state1S1)"
    using t2 g by blast
  have c3: "sorted_wrt (<)
       (map nonce (stateS1 #
          accepted (\<lambda>s. []) openedS1 [SubmitQuoteRequest quoteRequestS1, SubmitFill fillS1]))"
    using t3 un createChannel_S1 on by blast
  show ?thesis
    by (intro conjI;
        rule up c1 g un createChannel_S1 c3 accepted_S1 conjunct1[OF c2] conjunct2[OF c2] order_refl)
qed

section \<open>Balances\<close>

lemma hex_lower_table:
  "\<forall>c\<in>set ''0123456789abcdefABCDEF''. lowerHex (toLowerCaseChar c)"
  by code_simp

lemma lowerHex_toLowerCaseChar: "isDigitIn 16 c \<Longrightarrow> lowerHex (toLowerCaseChar c)"
  using bspec[OF hex_lower_table hex_keys] .

lemma lowerAddress_toLowerCase:
  assumes "isAddressFormat v"
  shows "lowerAddress (toLowerCase v)"
proof -
  obtain ds where v: "v = CHR ''0'' # CHR ''x'' # ds" and l: "length ds = 40"
    and h: "list_all (isDigitIn 16) ds"
    using assms by (auto simp: isAddressFormat_def split: list.splits)
  have "list_all lowerHex (map toLowerCaseChar ds)"
    using h lowerHex_toLowerCaseChar by (induction ds) simp_all
  then show ?thesis using l toLowerCaseChar_0x
    by (simp add: v toLowerCase_def lowerAddress_def)
qed

lemma createTokenAmount_Inr:
  "createTokenAmount tok amt = Inr ta \<Longrightarrow>
     ta = \<lparr> token = toLowerCase tok, amount = amt \<rparr> \<and> lowerAddress (token ta)"
  by (auto simp: createTokenAmount_def createAddress_def lowerAddress_toLowerCase
           split: sum.splits if_splits)

lemma deserialize_balances:
  assumes "deserializeChannelState (serializeChannelState s) = Inr s'"
    "list_all (\<lambda>b. lowerAddress (token b)) (traderBalances s)"
    "list_all (\<lambda>b. lowerAddress (token b)) (lpBalances s)"
  shows "traderBalances s' = traderBalances s \<and> lpBalances s' = lpBalances s"
  using assms
  by (auto simp: deserializeChannelState_def serializeChannelState_def
        mapThrowing_serializeAmount split: sum.splits)

lemma stable_balancesAre:
  assumes "list_all (\<lambda>b. lowerAddress (token b)) tb" "list_all (\<lambda>b. lowerAddress (token b)) lb"
  shows "stable (balancesAre tb lb)"
  unfolding stable_def balancesAre_def
proof (intro allI impI)
  fix s :: ChannelState
  assume a: "case Inr s of Inl e \<Rightarrow> True | Inr s \<Rightarrow> traderBalances s = tb \<and> lpBalances s = lb"
  then have tb: "traderBalances s = tb" and lb: "lpBalances s = lb" by simp_all
  show "case deserializeChannelState (serializeChannelState s) of Inl e \<Rightarrow> True
        | Inr s \<Rightarrow> traderBalances s = tb \<and> lpBalances s = lb"
  proof (cases "deserializeChannelState (serializeChannelState s)")
    case (Inl e)
    then show ?thesis by simp
  next
    case (Inr s')
    from deserialize_balances[OF Inr] assms tb lb show ?thesis using Inr by simp
  qed
qed

lemma agree_run:
  assumes "agree R m cid" "stable R"
    "\<And>s n t. R (Inr s) \<Longrightarrow> nonce s < n \<Longrightarrow> timestamp s < t \<Longrightarrow>
        R (Inr (s\<lparr> nonce := n, timestamp := t \<rparr>))"
    "\<forall>op\<in>set ops. onChannel cid op \<and> isMessage op"
  shows "agree R (run k m ops) cid"
  using assms(1,4)
proof (induction ops arbitrary: m)
  case Nil
  then show ?case by simp
next
  case (Cons op ops)
  obtain acc m' where p: "perform k m op = (acc, m')" by (cases "perform k m op")
  have on: "onChannel cid op" and msg: "isMessage op"
    and rest: "\<forall>op\<in>set ops. onChannel cid op \<and> isMessage op"
    using Cons.prems(2) by simp_all
  have "agree R m' cid"
    using Cons.prems(1) assms(2) on p
  proof (cases rule: perform_cases)
    case unchanged
    then show ?thesis by simp
  next
    case (advanced ns cur mt)
    obtain n t where ns: "ns = cur\<lparr> nonce := n, timestamp := t \<rparr>"
      using advanced(5)[OF msg] by blast
    have "nonce cur < n" "timestamp cur < t"
      using validateStateTransition_Inr[OF advanced(4)] unfolding ns by simp_all
    then have "R (Inr ns)" unfolding ns using assms(3) advanced(2) by blast
    then show ?thesis using advanced(7) assms(2) by blast
  qed
  from Cons.IH[OF this rest] show ?case using p by simp
qed

lemma balanceOf_single:
  "balanceOf t [\<lparr> token = a, amount = n \<rparr>] = (if a = t then n else 0)"
  by (simp add: balanceOf_def)

text \<open>
  Claim C5 says that the balances of every state reachable by accepted operations sum
  to the deposits.  A state submitted directly to \<open>updateChannelState\<close> is accepted
  with any balances, since \<open>validateStateTransition\<close> compares nonce, channel id,
  participants and timestamp only: after the creation of the channel of S1 the state
  with a trader balance of \<open>10^30\<close> becomes the current state.  The states carried by a
  checkpoint request and by a close request are accepted with those balances too.
\<close>

theorem direct_update_changes_balances:
  "unusedId emptyManager ''ch01''
   \<and> createChannel emptyManager ''ch01'' 1000 paramsS1 = (Inr (''ch01'', stateS1), openedS1)
   \<and> updateChannelState openedS1 ''ch01'' inflatedS1 ''UPDATE'' =
       (Inr (), commitState openedS1 ''ch01'' inflatedS1 ''UPDATE'')
   \<and> getChannelState (run (\<lambda>s. []) openedS1 [SubmitState ''ch01'' inflatedS1 ''UPDATE'']) ''ch01''
       = (Inr (Some inflatedS1), commitState openedS1 ''ch01'' inflatedS1 ''UPDATE'')
   \<and> balanceOf usdc (traderBalances stateS1) + balanceOf usdc (lpBalances stateS1) = 1000000000
   \<and> balanceOf usdc (traderBalances inflatedS1) + balanceOf usdc (lpBalances inflatedS1)
       = 1000000000000000000000000000000
   \<and> fst (createCheckpoint (\<lambda>s. []) openedS1 (checkpointS6\<lparr> cp_state := inflatedS1 \<rparr>)) = Inr ()
   \<and> fst (closeChannel openedS1 ''ch01'' inflatedS1) = Inr ()"
proof -
  have ck: "fst (createCheckpoint (\<lambda>s. []) openedS1 (checkpointS6\<lparr> cp_state := inflatedS1 \<rparr>))
      = Inr ()"
    by (simp add: createCheckpoint_def Let_def getChannelState_cached[OF openedS1(1)]
          validateCheckpointRequest_def checkpointS6_def inflatedS1_def stateS1_def)
  have cl: "fst (closeChannel openedS1 ''ch01'' inflatedS1) = Inr ()"
    by (simp add: closeChannel_def getChannelState_cached[OF openedS1(1)] inflatedS1_def
          stateS1_def)
  have un: "unusedId emptyManager ''ch01''"
    by (simp add: unusedId_def emptyManager_def findOne_def)
  have up: "updateChannelState openedS1 ''ch01'' inflatedS1 ''UPDATE'' =
       (Inr (), commitState openedS1 ''ch01'' inflatedS1 ''UPDATE'')"
    by (rule updateChannelState_accept[OF _ getChannelState_cached[OF openedS1(1)]])
       (simp_all add: openedS1(2) validateStateTransition_def inflatedS1_def stateS1_def)
  have g: "getChannelState (run (\<lambda>s. []) openedS1 [SubmitState ''ch01'' inflatedS1 ''UPDATE''])
       ''ch01'' = (Inr (Some inflatedS1), commitState openedS1 ''ch01'' inflatedS1 ''UPDATE'')"
    by (simp add: up getChannelState_cached[OF commitState_cache])
  have ne: "usdc \<noteq> weth" by (simp add: usdc_def weth_def)
  have b0: "balanceOf usdc (traderBalances stateS1) + balanceOf usdc (lpBalances stateS1)
      = 1000000000"
    using ne by (simp add: stateS1_def balanceOf_single)
  have b1: "balanceOf usdc (traderBalances inflatedS1) + balanceOf usdc (lpBalances inflatedS1)
       = 1000000000000000000000000000000"
    using ne by (simp add: inflatedS1_def stateS1_def balanceOf_single)
  show ?thesis
    by (intro conjI; rule un createChannel_S1 up g b0 b1 ck cl)
qed

text \<open>
  Claim C5, amended.  For every token and every current state that the manager returns
  after the creation of the channel under an unused id and any run of quote requests,
  fills, cancels, heartbeats, checkpoints, closes, timeouts and clean-ups of that
  channel, with no state submitted directly, the trader's balance plus the LP's balance
  of the token is the sum of the deposits of that token made at creation; the balance
  vectors are those of the initial state.
\<close>

theorem conservation:
  assumes "unusedId m0 cid"
    and "createChannel m0 cid now params = (Inr (c, init0), m1)"
    and "\<forall>op\<in>set ops. onChannel cid op \<and> isMessage op"
    and "getChannelState (run k m1 ops) cid = (Inr (Some s), m')"
  shows "traderBalances s = traderBalances init0 \<and> lpBalances s = lpBalances init0 \<and>
         balanceOf t (traderBalances s) + balanceOf t (lpBalances s) =
           (if toLowerCase (p_tokenIn params) = t then p_traderDeposit params else 0) +
           (if toLowerCase (p_tokenOut params) = t then p_lpDeposit params else 0)"
proof -
  obtain ta la where ta: "createTokenAmount (p_tokenIn params) (p_traderDeposit params) = Inr ta"
    and la: "createTokenAmount (p_tokenOut params) (p_lpDeposit params) = Inr la"
    using assms(2)
    by (auto simp: createChannel_def createChannelFailed_def split: sum.splits)
  note f = createChannel_Inr[OF assms(2)]
  have tb: "traderBalances init0 = [ta]" and lb: "lpBalances init0 = [la]"
    using f(7)[OF ta] f(8)[OF la] by simp_all
  note ta' = createTokenAmount_Inr[OF ta] and la' = createTokenAmount_Inr[OF la]
  let ?R = "balancesAre [ta] [la]"
  have low: "lowerAddress (token ta)" "lowerAddress (token la)"
    using ta' la' by blast+
  have st: "stable ?R" by (intro stable_balancesAre) (simp_all add: low)
  have "agree ?R m1 cid"
    by (rule agree_createChannel[OF assms(1,2) st]) (simp add: balancesAre_def tb lb)
  then have "agree ?R (run k m1 ops) cid"
    by (rule agree_run[OF _ st _ assms(3)]) (simp add: balancesAre_def)
  from agree_getChannelState[OF this st assms(4)] have "?R (Inr s)" by simp
  then have s: "traderBalances s = [ta]" "lpBalances s = [la]" by (simp_all add: balancesAre_def)
  have "ta = \<lparr> token = toLowerCase (p_tokenIn params), amount = p_traderDeposit params \<rparr>"
    "la = \<lparr> token = toLowerCase (p_tokenOut params), amount = p_lpDeposit params \<rparr>"
    using ta' la' by simp_all
  then show ?thesis using s tb lb by (simp add: balanceOf_single)
qed

lemma run_S1:
  "run k openedS1 [SubmitQuoteRequest quoteRequestS1, SubmitFill fillS1] = filledS1"
  by (simp add: processQuoteRequest_S1 processFill_S1 requestedS1(1)[symmetric]
        filledS1(1)[symmetric])

lemma toLowerCase_S1: "toLowerCase usdc = usdc" "toLowerCase weth = weth"
  using createAddress_lowerAddress[OF lowerAddress_S1(3)]
    createAddress_lowerAddress[OF lowerAddress_S1(4)]
  by (simp_all add: createAddress_def split: if_splits)

theorem conservation_witness:
  "unusedId emptyManager ''ch01''
   \<and> createChannel emptyManager ''ch01'' 1000 paramsS1 = (Inr (''ch01'', stateS1), openedS1)
   \<and> getChannelState (run (\<lambda>s. []) openedS1 [SubmitQuoteRequest quoteRequestS1, SubmitFill fillS1])
         ''ch01'' = (Inr (Some state2S1), filledS1)
   \<and> traderBalances state2S1 = traderBalances stateS1
   \<and> lpBalances state2S1 = lpBalances stateS1
   \<and> balanceOf usdc (traderBalances state2S1) + balanceOf usdc (lpBalances state2S1) = 1000000000
   \<and> balanceOf weth (traderBalances state2S1) + balanceOf weth (lpBalances state2S1)
       = 1000000000000000000"
proof -
  let ?ops = "[SubmitQuoteRequest quoteRequestS1, SubmitFill fillS1]"
  have un: "unusedId emptyManager ''ch01''"
    by (simp add: unusedId_def emptyManager_def findOne_def)
  have on: "\<forall>op\<in>set ?ops. onChannel ''ch01'' op \<and> isMessage op"
    by (simp add: onChannel_def quoteRequestS1_def fillS1_def)
  have g: "getChannelState (run (\<lambda>s. []) openedS1 ?ops) ''ch01'' = (Inr (Some state2S1), filledS1)"
    unfolding run_S1 by (rule getChannelState_cached[OF filledS1(2)])
  have ne: "usdc \<noteq> weth" by (simp add: usdc_def weth_def)
  note c = conservation[OF un createChannel_S1 on g]
  have ru: "(if toLowerCase (p_tokenIn paramsS1) = usdc then p_traderDeposit paramsS1 else 0) +
            (if toLowerCase (p_tokenOut paramsS1) = usdc then p_lpDeposit paramsS1 else 0)
            = 1000000000"
    using ne by (simp add: toLowerCase_S1 paramsS1_def)
  have rw: "(if toLowerCase (p_tokenIn paramsS1) = weth then p_traderDeposit paramsS1 else 0) +
            (if toLowerCase (p_tokenOut paramsS1) = weth then p_lpDeposit paramsS1 else 0)
            = 1000000000000000000"
    using ne by (simp add: toLowerCase_S1 paramsS1_def)
  have tb: "traderBalances state2S1 = traderBalances stateS1"
    and lb: "lpBalances state2S1 = lpBalances stateS1"
    using c[of usdc] by blast+
  have su: "balanceOf usdc (traderBalances state2S1) + balanceOf usdc (lpBalances state2S1)
            = 1000000000"
    using c[of usdc] ru by (elim conjE) (rule trans)
  have sw: "balanceOf weth (traderBalances state2S1) + balanceOf weth (lpBalances state2S1)
            = 1000000000000000000"
    using c[of weth] rw by (elim conjE) (rule trans)
  show ?thesis
    by (intro conjI; rule un createChannel_S1 g tb lb su sw)
qed

section \<open>Opening a channel\<close>

lemma createTokenAmount_format:
  "isAddressFormat tok \<Longrightarrow>
     createTokenAmount tok amt = Inr \<lparr> token = toLowerCase tok, amount = amt \<rparr>"
  "\<not> isAddressFormat tok \<Longrightarrow>
     createTokenAmount tok amt = Inl (Error (''Invalid address format: '' @ tok))"
  by (simp_all add: createTokenAmount_def createAddress_def)

text \<open>
  Claim C7 says that \<open>createChannel\<close> succeeds for every parameter set with distinct
  participants, positive deposits and a timeout at or above the floor.  With a token
  that is not an address it fails all the same.
\<close>

theorem createChannel_malformed_token:
  "p_trader paramsBadToken \<noteq> p_lp paramsBadToken
   \<and> 0 < p_traderDeposit paramsBadToken \<and> 0 < p_lpDeposit paramsBadToken
   \<and> CHANNEL_TIMEOUT_MS div 1000 \<le> p_timeout paramsBadToken
   \<and> fst (createChannel emptyManager ''ch01'' 1000 paramsBadToken)
       = Inl (ChannelError ''Failed to create channel: Invalid address format: USDC'')"
  by (simp add: paramsBadToken_def paramsS1_def traderS1_def lpS1_def CHANNEL_TIMEOUT_MS_def
        createChannel_def validateChannelParams_def createTokenAmount_def createAddress_def
        isAddressFormat_def createChannelFailed_def)

text \<open>
  Claim C7, amended.  \<open>createChannel\<close> fails with the error for equal participants when
  trader and LP are the same address; otherwise with the deposit error when a deposit
  is zero or negative; otherwise with the timeout error when the timeout is below the
  floor of \<open>CHANNEL_TIMEOUT_MS / 1000\<close> seconds; each as a \<open>ChannelError\<close> that only counts
  the error.  For every parameter set that passes the three checks and whose two tokens
  have the address format, it succeeds: it returns the id that was drawn and an initial
  state at nonce 0 that holds the two deposits under the lower-cased token addresses,
  and that state is the current state of the channel.
\<close>

theorem createChannel_outcomes:
  "(p_trader params = p_lp params \<longrightarrow>
      createChannel m cid now params =
        (Inl (ChannelError ''Failed to create channel: Trader and LP cannot be the same address''),
         countError m))
   \<and> (p_trader params \<noteq> p_lp params \<and>
       (p_traderDeposit params \<le> 0 \<or> p_lpDeposit params \<le> 0) \<longrightarrow>
      createChannel m cid now params =
        (Inl (ChannelError ''Failed to create channel: Deposits must be positive''), countError m))
   \<and> (p_trader params \<noteq> p_lp params \<and> 0 < p_traderDeposit params \<and> 0 < p_lpDeposit params \<and>
       p_timeout params < CHANNEL_TIMEOUT_MS div 1000 \<longrightarrow>
      createChannel m cid now params =
        (Inl (ChannelError ''Failed to create channel: Timeout too short''), countError m))
   \<and> (p_trader params \<noteq> p_lp params \<and> 0 < p_traderDeposit params \<and> 0 < p_lpDeposit params \<and>
       CHANNEL_TIMEOUT_MS div 1000 \<le> p_timeout params \<and>
       isAddressFormat (p_tokenIn params) \<and> isAddressFormat (p_tokenOut params) \<longrightarrow>
      (\<exists>m'. createChannel m cid now params =
              (Inr (cid,
                 \<lparr> channelId = cid, nonce = 0, trader = p_trader params, lp = p_lp params,
                   traderBalances =
                     [\<lparr> token = toLowerCase (p_tokenIn params),
                        amount = p_traderDeposit params \<rparr>],
                   lpBalances =
                     [\<lparr> token = toLowerCase (p_tokenOut params), amount = p_lpDeposit params \<rparr>],
                   timestamp = now, chainId = p_chainId params \<rparr>), m')
            \<and> getChannelState m' cid =
                (Inr (Some
                   \<lparr> channelId = cid, nonce = 0, trader = p_trader params, lp = p_lp params,
                     traderBalances =
                       [\<lparr> token = toLowerCase (p_tokenIn params),
                          amount = p_traderDeposit params \<rparr>],
                     lpBalances =
                       [\<lparr> token = toLowerCase (p_tokenOut params),
                          amount = p_lpDeposit params \<rparr>],
                     timestamp = now, chainId = p_chainId params \<rparr>), m')))"
proof (intro conjI impI)
  assume "p_trader params = p_lp params"
  then show "createChannel m cid now params =
        (Inl (ChannelError ''Failed to create channel: Trader and LP cannot be the same address''),
         countError m)"
    by (simp add: createChannel_def validateChannelParams_def createChannelFailed_def)
next
  assume "p_trader params \<noteq> p_lp params \<and>
       (p_traderDeposit params \<le> 0 \<or> p_lpDeposit params \<le> 0)"
  then show "createChannel m cid now params =
        (Inl (ChannelError ''Failed to create channel: Deposits must be positive''), countError m)"
    by (auto simp: createChannel_def validateChannelParams_def createChannelFailed_def)
next
  assume "p_trader params \<noteq> p_lp params \<and> 0 < p_traderDeposit params \<and> 0 < p_lpDeposit params \<and>
       p_timeout params < CHANNEL_TIMEOUT_MS div 1000"
  then show "createChannel m cid now params =
        (Inl (ChannelError ''Failed to create channel: Timeout too short''), countError m)"
    by (simp add: createChannel_def validateChannelParams_def createChannelFailed_def)
next
  let ?init = "\<lparr> channelId = cid, nonce = 0, trader = p_trader params, lp = p_lp params,
                   traderBalances =
                     [\<lparr> token = toLowerCase (p_tokenIn params),
                        amount = p_traderDeposit params \<rparr>],
                   lpBalances =
                     [\<lparr> token = toLowerCase (p_tokenOut params), amount = p_lpDeposit params \<rparr>],
                   timestamp = now, chainId = p_chainId params \<rparr>"
  assume a: "p_trader params \<noteq> p_lp params \<and> 0 < p_traderDeposit params \<and> 0 < p_lpDeposit params \<and>
       CHANNEL_TIMEOUT_MS div 1000 \<le> p_timeout params \<and>
       isAddressFormat (p_tokenIn params) \<and> isAddressFormat (p_tokenOut params)"
  then have v: "validateChannelParams params = Inr ()"
    by (simp add: validateChannelParams_def)
  obtain res m' where c: "createChannel m cid now params = (res, m')"
    by (cases "createChannel m cid now params")
  have r: "res = Inr (cid, ?init)"
    using c a v by (auto simp: createChannel_def createTokenAmount_format Let_def)
  have "channelCache m' cid = Some ?init"
    by (rule createChannel_Inr(4)[OF c[unfolded r]])
  then have "getChannelState m' cid = (Inr (Some ?init), m')"
    by (rule getChannelState_cached)
  then show "\<exists>m'. createChannel m cid now params = (Inr (cid, ?init), m')
            \<and> getChannelState m' cid = (Inr (Some ?init), m')"
    using c r by blast
qed

lemma isAddressFormat_S1: "isAddressFormat usdc" "isAddressFormat weth"
  using createAddress_lowerAddress[OF lowerAddress_S1(3)]
    createAddress_lowerAddress[OF lowerAddress_S1(4)]
  by (simp_all add: createAddress_def split: if_splits)

theorem createChannel_outcomes_witness:
  "createChannel emptyManager ''ch01'' 1000 (paramsS1\<lparr> p_lp := traderS1 \<rparr>) =
     (Inl (ChannelError ''Failed to create channel: Trader and LP cannot be the same address''),
      countError emptyManager)
   \<and> createChannel emptyManager ''ch01'' 1000 (paramsS1\<lparr> p_lpDeposit := 0 \<rparr>) =
     (Inl (ChannelError ''Failed to create channel: Deposits must be positive''),
      countError emptyManager)
   \<and> createChannel emptyManager ''ch01'' 1000 (paramsS1\<lparr> p_timeout := 1 \<rparr>) =
     (Inl (ChannelError ''Failed to create channel: Timeout too short''), countError emptyManager)
   \<and> (\<exists>m'. createChannel emptyManager ''ch01'' 1000 paramsS1 = (Inr (''ch01'', stateS1), m')
         \<and> getChannelState m' ''ch01'' = (Inr (Some stateS1), m'))"
proof -
  note t = createChannel_outcomes[where m = emptyManager and cid = "''ch01''" and now = 1000]
  have 1: "createChannel emptyManager ''ch01'' 1000 (paramsS1\<lparr> p_lp := traderS1 \<rparr>) =
     (Inl (ChannelError ''Failed to create channel: Trader and LP cannot be the same address''),
      countError emptyManager)"
    using t[where params = "paramsS1\<lparr> p_lp := traderS1 \<rparr>"] by (simp add: paramsS1_def)
  have 2: "createChannel emptyManager ''ch01'' 1000 (paramsS1\<lparr> p_lpDeposit := 0 \<rparr>) =
     (Inl (ChannelError ''Failed to create channel: Deposits must be positive''),
      countError emptyManager)"
    using t[where params = "paramsS1\<lparr> p_lpDeposit := 0 \<rparr>"]
    by (simp add: paramsS1_def traderS1_def lpS1_def)
  have 3: "createChannel emptyManager ''ch01'' 1000 (paramsS1\<lparr> p_timeout := 1 \<rparr>) =
     (Inl (ChannelError ''Failed to create channel: Timeout too short''), countError emptyManager)"
    using t[where params = "paramsS1\<lparr> p_timeout := 1 \<rparr>"]
    by (simp add: paramsS1_def traderS1_def lpS1_def CHANNEL_TIMEOUT_MS_def)
  have p: "p_trader paramsS1 \<noteq> p_lp paramsS1 \<and> 0 < p_traderDeposit paramsS1 \<and>
       0 < p_lpDeposit paramsS1 \<and> CHANNEL_TIMEOUT_MS div 1000 \<le> p_timeout paramsS1 \<and>
       isAddressFormat (p_tokenIn paramsS1) \<and> isAddressFormat (p_tokenOut paramsS1)"
    by (simp add: paramsS1_def traderS1_def lpS1_def CHANNEL_TIMEOUT_MS_def isAddressFormat_S1)
  have s: "\<lparr> channelId = ''ch01'', nonce = 0, trader = p_trader paramsS1, lp = p_lp paramsS1,
             traderBalances = [\<lparr> token = toLowerCase (p_tokenIn paramsS1),
                                  amount = p_traderDeposit paramsS1 \<rparr>],
             lpBalances = [\<lparr> token = toLowerCase (p_tokenOut paramsS1),
                              amount = p_lpDeposit paramsS1 \<rparr>],
             timestamp = 1000, chainId = p_chainId paramsS1 \<rparr> = stateS1"
    by (simp add: paramsS1_def stateS1_def toLowerCase_S1)
  have 4: "\<exists>m'. createChannel emptyManager ''ch01'' 1000 paramsS1 = (Inr (''ch01'', stateS1), m')
         \<and> getChannelState m' ''ch01'' = (Inr (Some stateS1), m')"
    using t[where params = paramsS1] p unfolding s by blast
  show ?thesis by (intro conjI; rule 1 2 3 4)
qed

section \<open>Checkpoints\<close>

lemma createCheckpoint_found:
  assumes "getChannelState m (cp_channelId req) = (Inr (Some cur), m1)"
  shows "createCheckpoint k m req =
     (case validateCheckpointRequest req cur of
        Inl e \<Rightarrow> (Inl e, m1)
      | Inr u \<Rightarrow> (Inr (), recordCheckpoint k m1 (cp_channelId req) req))"
  using assms by (simp add: createCheckpoint_def Let_def split: sum.splits)

lemma recordCheckpoint_status:
  "findOne (hasChannelId cid) (dbChannels (recordCheckpoint k m cid req)) =
     map_option (\<lambda>d. d\<lparr> status := CHECKPOINTING,
                        checkpointNonce := Some (bigintToString (nonce (cp_state req))) \<rparr>)
       (findOne (hasChannelId cid) (dbChannels m))"
proof -
  have "findOne (hasChannelId cid)
          (updateOne (hasChannelId cid)
             (\<lambda>d. d\<lparr> status := CHECKPOINTING,
                     checkpointNonce := Some (bigintToString (nonce (cp_state req))) \<rparr>)
             (dbChannels m)) =
        map_option (\<lambda>d. d\<lparr> status := CHECKPOINTING,
                        checkpointNonce := Some (bigintToString (nonce (cp_state req))) \<rparr>)
          (findOne (hasChannelId cid) (dbChannels m))"
    by (rule findOne_updateOne_same) (simp add: hasChannelId_def)
  then show ?thesis by (simp add: recordCheckpoint_def)
qed

lemma recordCheckpoint_cache [simp]:
  "channelCache (recordCheckpoint k m cid req) = channelCache m"
  by (simp add: recordCheckpoint_def)

text \<open>
  Claim C8 says that a checkpoint request carrying the current state, at the current
  nonce, is accepted.  After scenario S1 the current nonce is 2, and the request at
  nonce 2 is rejected; nothing is written.
\<close>

theorem checkpoint_at_current_nonce:
  "getChannelState filledS1 ''ch01'' = (Inr (Some state2S1), filledS1)
   \<and> nonce state2S1 = 2
   \<and> cp_state checkpointS6 = state2S1
   \<and> createCheckpoint (\<lambda>s. []) filledS1 checkpointS6 =
       (Inl (ValidationError ''Checkpoint nonce must be greater than current nonce''), filledS1)"
proof -
  have g: "getChannelState filledS1 ''ch01'' = (Inr (Some state2S1), filledS1)"
    by (rule getChannelState_cached[OF filledS1(2)])
  have c: "cp_channelId checkpointS6 = ''ch01''" "cp_state checkpointS6 = state2S1"
    by (simp_all add: checkpointS6_def)
  have "createCheckpoint (\<lambda>s. []) filledS1 checkpointS6 =
       (Inl (ValidationError ''Checkpoint nonce must be greater than current nonce''), filledS1)"
    using createCheckpoint_found[of filledS1 checkpointS6, unfolded c(1), OF g]
    by (simp add: validateCheckpointRequest_def c)
  then show ?thesis using g c by (simp add: state2S1_def)
qed

text \<open>
  Claim C8, amended.  For a channel with a current state: a checkpoint request whose
  state nonce is equal to or below the current nonce is rejected with
  \<open>Checkpoint nonce must be greater than current nonce\<close> and writes nothing beyond the
  lookup; a request whose state nonce is strictly greater and whose state carries the
  id of the current state is accepted: the stored status of the channel becomes
  \<open>CHECKPOINTING\<close> with the checkpoint nonce, a checkpoint document is appended that
  holds the nonce, the hash and the serialization of the submitted state and the two
  signatures, and the current state of the channel stays the one it was.
\<close>

theorem checkpoint_outcomes:
  assumes "getChannelState m (cp_channelId req) = (Inr (Some cur), m1)"
  shows "(nonce (cp_state req) \<le> nonce cur \<longrightarrow>
            createCheckpoint k m req =
              (Inl (ValidationError ''Checkpoint nonce must be greater than current nonce''), m1))
       \<and> (nonce cur < nonce (cp_state req) \<and> channelId (cp_state req) = channelId cur \<longrightarrow>
            (\<exists>m'. createCheckpoint k m req = (Inr (), m') \<and>
               findOne (hasChannelId (cp_channelId req)) (dbChannels m') =
                 map_option
                   (\<lambda>d. d\<lparr> status := CHECKPOINTING,
                           checkpointNonce := Some (bigintToString (nonce (cp_state req))) \<rparr>)
                   (findOne (hasChannelId (cp_channelId req)) (dbChannels m)) \<and>
               dbCheckpoints m' =
                 dbCheckpoints m @
                   [\<lparr> ck_channelId = cp_channelId req,
                      ck_nonce = bigintToString (nonce (cp_state req)),
                      ck_stateHash = k (serializeChannelState (cp_state req)),
                      ck_state = serializeChannelState (cp_state req),
                      ck_traderSignature = cp_traderSignature req,
                      ck_lpSignature = cp_lpSignature req \<rparr>] \<and>
               getChannelState m' (cp_channelId req) = (Inr (Some cur), m')))"
proof (intro conjI impI)
  assume "nonce (cp_state req) \<le> nonce cur"
  then show "createCheckpoint k m req =
              (Inl (ValidationError ''Checkpoint nonce must be greater than current nonce''), m1)"
    by (simp add: createCheckpoint_found[OF assms] validateCheckpointRequest_def)
next
  let ?cid = "cp_channelId req"
  let ?m' = "recordCheckpoint k m1 ?cid req"
  assume a: "nonce cur < nonce (cp_state req) \<and> channelId (cp_state req) = channelId cur"
  then have c: "createCheckpoint k m req = (Inr (), ?m')"
    by (simp add: createCheckpoint_found[OF assms] validateCheckpointRequest_def)
  note g = getChannelState_Some[OF assms]
  have db: "findOne (hasChannelId ?cid) (dbChannels ?m') =
                 map_option
                   (\<lambda>d. d\<lparr> status := CHECKPOINTING,
                           checkpointNonce := Some (bigintToString (nonce (cp_state req))) \<rparr>)
                   (findOne (hasChannelId ?cid) (dbChannels m))"
    using recordCheckpoint_status[of ?cid k m1 req] g(3) by simp
  have ck: "dbCheckpoints ?m' =
                 dbCheckpoints m @
                   [\<lparr> ck_channelId = ?cid,
                      ck_nonce = bigintToString (nonce (cp_state req)),
                      ck_stateHash = k (serializeChannelState (cp_state req)),
                      ck_state = serializeChannelState (cp_state req),
                      ck_traderSignature = cp_traderSignature req,
                      ck_lpSignature = cp_lpSignature req \<rparr>]"
    using g(4) by (simp add: recordCheckpoint_def calculateStateHash_def)
  have st: "getChannelState ?m' ?cid = (Inr (Some cur), ?m')"
    by (rule getChannelState_cached) (simp add: g(1))
  show "\<exists>m'. createCheckpoint k m req = (Inr (), m') \<and>
               findOne (hasChannelId ?cid) (dbChannels m') =
                 map_option
                   (\<lambda>d. d\<lparr> status := CHECKPOINTING,
                           checkpointNonce := Some (bigintToString (nonce (cp_state req))) \<rparr>)
                   (findOne (hasChannelId ?cid) (dbChannels m)) \<and>
               dbCheckpoints m' =
                 dbCheckpoints m @
                   [\<lparr> ck_channelId = ?cid,
                      ck_nonce = bigintToString (nonce (cp_state req)),
                      ck_stateHash = k (serializeChannelState (cp_state req)),
                      ck_state = serializeChannelState (cp_state req),
                      ck_traderSignature = cp_traderSignature req,
                      ck_lpSignature = cp_lpSignature req \<rparr>] \<and>
               getChannelState m' ?cid = (Inr (Some cur), m')"
    using c db ck st by blast
qed

theorem checkpoint_outcomes_witness:
  "getChannelState filledS1 (cp_channelId checkpointS6) = (Inr (Some state2S1), filledS1)
   \<and> nonce (cp_state checkpointS6) \<le> nonce state2S1
   \<and> createCheckpoint (\<lambda>s. []) filledS1 checkpointS6 =
       (Inl (ValidationError ''Checkpoint nonce must be greater than current nonce''), filledS1)
   \<and> getChannelState filledS1 (cp_channelId checkpointNext) = (Inr (Some state2S1), filledS1)
   \<and> nonce state2S1 < nonce (cp_state checkpointNext)
   \<and> channelId (cp_state checkpointNext) = channelId state2S1
   \<and> (\<exists>m'. createCheckpoint (\<lambda>s. []) filledS1 checkpointNext = (Inr (), m') \<and>
         getChannelState m' (cp_channelId checkpointNext) = (Inr (Some state2S1), m'))"
proof -
  have g: "getChannelState filledS1 ''ch01'' = (Inr (Some state2S1), filledS1)"
    by (rule getChannelState_cached[OF filledS1(2)])
  have c: "cp_channelId checkpointS6 = ''ch01''" "cp_state checkpointS6 = state2S1"
    "cp_channelId checkpointNext = ''ch01''"
    "cp_state checkpointNext = state2S1\<lparr> nonce := 3, timestamp := 4000 \<rparr>"
    by (simp_all add: checkpointS6_def checkpointNext_def)
  have g6: "getChannelState filledS1 (cp_channelId checkpointS6) = (Inr (Some state2S1), filledS1)"
    and gn: "getChannelState filledS1 (cp_channelId checkpointNext) = (Inr (Some state2S1), filledS1)"
    using g c by simp_all
  have n: "nonce (cp_state checkpointS6) \<le> nonce state2S1"
    "nonce state2S1 < nonce (cp_state checkpointNext)"
    "channelId (cp_state checkpointNext) = channelId state2S1"
    by (simp_all add: c state2S1_def)
  have r: "createCheckpoint (\<lambda>s. []) filledS1 checkpointS6 =
       (Inl (ValidationError ''Checkpoint nonce must be greater than current nonce''), filledS1)"
    using checkpoint_outcomes[OF g6, of "\<lambda>s. []"] n(1) by blast
  have a: "\<exists>m'. createCheckpoint (\<lambda>s. []) filledS1 checkpointNext = (Inr (), m') \<and>
         getChannelState m' (cp_channelId checkpointNext) = (Inr (Some state2S1), m')"
    using checkpoint_outcomes[OF gn, of "\<lambda>s. []"] n(2,3) by blast
  show ?thesis by (intro conjI; rule g6 gn n r a)
qed

section \<open>Fills\<close>

text \<open>
  Claim C1.  A fill at quantity \<open>q\<close> and price \<open>p\<close> is to move \<open>q\<close> of the base token
  and \<open>q * p / 10^18\<close> of the quote token between the two balance vectors, and to fail
  when the debit would underflow.  The fill of scenario S1 is accepted and the state it
  returns has the balance vectors of the state before: the trader still holds
  \<open>1000 * 10^6\<close> of the first token and nothing of the second.
\<close>

theorem fill_leaves_balances:
  "processFill requestedS1 fillS1 = (Inr state2S1, filledS1)
   \<and> traderBalances state2S1 = [\<lparr> token = usdc, amount = 1000000000 \<rparr>]
   \<and> lpBalances state2S1 = [\<lparr> token = weth, amount = 1000000000000000000 \<rparr>]
   \<and> traderBalances state2S1 = traderBalances state1S1
   \<and> lpBalances state2S1 = lpBalances state1S1
   \<and> fill_quantity fillS1 * fill_price fillS1 div PRICE_PRECISION = 1000000000000000000000"
proof -
  have p: "processFill requestedS1 fillS1 = (Inr state2S1, filledS1)"
    using processFill_S1 filledS1(1) by simp
  have b: "traderBalances state2S1 = [\<lparr> token = usdc, amount = 1000000000 \<rparr>]"
    "lpBalances state2S1 = [\<lparr> token = weth, amount = 1000000000000000000 \<rparr>]"
    "traderBalances state2S1 = traderBalances state1S1"
    "lpBalances state2S1 = lpBalances state1S1"
    by (simp_all add: state2S1_def state1S1_def stateS1_def)
  have q: "fill_quantity fillS1 * fill_price fillS1 div PRICE_PRECISION = 1000000000000000000000"
    by (simp add: fillS1_def PRICE_PRECISION_def)
  show ?thesis by (intro conjI; rule p b q)
qed

section \<open>Channel status\<close>



lemma withStatus_fields [simp]:
  "channelCache (withStatus st m) = channelCache m"
  "redisChannels (withStatus st m) = redisChannels m"
  "redisLocks (withStatus st m) = redisLocks m"
  by (simp_all add: withStatus_def)















section \<open>Replays\<close>

lemma wireFormat_advance [simp]:
  "wireFormat (s\<lparr> nonce := a, timestamp := b \<rparr>) = wireFormat s"
  by (simp add: wireFormat_def)












lemma countError_locks [simp]: "redisLocks (countError m) = redisLocks m"
  by (simp add: countError_def)




lemma markCancelled_locks [simp]: "redisLocks (markCancelled m q) = redisLocks m"
  by (simp add: markCancelled_def)




lemma createChannel_locks:
  "createChannel m cid now params = (Inr r, m1) \<Longrightarrow> redisLocks m1 = redisLocks m"
  by (auto simp: createChannel_def createChannelFailed_def Let_def split: sum.splits)













lemma createChannel_upper:
  "createChannel emptyManager ''ch01'' 1000 paramsUpper =
     (Inr (''ch01'', stateS1\<lparr> trader := traderUpper \<rparr>), openedUpper)"
  by (simp add: openedUpper_def createChannel_def validateChannelParams_def paramsUpper_def
        paramsS1_def createTokenAmount_S1 CHANNEL_TIMEOUT_MS_def stateS1_def traderUpper_def
        lpS1_def Let_def)

lemma openedUpper:
  "channelCache openedUpper ''ch01'' = Some (stateS1\<lparr> trader := traderUpper \<rparr>)"
  "redisLocks openedUpper = {}"
proof -
  show "channelCache openedUpper ''ch01'' = Some (stateS1\<lparr> trader := traderUpper \<rparr>)"
    by (rule createChannel_Inr(4)[OF createChannel_upper])
  have "redisLocks openedUpper = redisLocks emptyManager"
    by (rule createChannel_locks[OF createChannel_upper])
  then show "redisLocks openedUpper = {}" by (simp add: emptyManager_def)
qed










end
